theory Spec2Isabelle
  imports Main "HOL-Library.Sublist"
begin

section \<open>Shallow embedding of cleanup_v1_calendar.py\<close>

text \<open>
  The script walks over the users of the legacy application, recovers their Google
  credentials, searches their primary calendar for the events the legacy application
  created and deletes them. Everything outside the script (environment variables, the
  Supabase client, Fernet, the Google client libraries, the clock) is a field of the
  record \<open>env\<close>; every \<open>raise\<close> is the \<open>Inl\<close> branch of a sum; the mutable
  statistics dictionary is passed explicitly. Logging and the pacing \<open>time.sleep(1)\<close> have
  no effect on any value computed here and are left out.
\<close>

subsection \<open>Exceptions and Python truthiness\<close>

text \<open>
  The handlers of the script tell \<open>RefreshError\<close> from every other \<open>Exception\<close>; a
  \<open>KeyError\<close> is what \<open>event['id']\<close> raises on a missing key. The argument is the
  message; \<open>str_exc\<close> is Python's \<open>str(e)\<close>, which puts a \<open>KeyError\<close>'s key in quotes.
\<close>

datatype exc = RefreshError string | KeyError string | OtherException string

fun str_exc :: "exc \<Rightarrow> string" where
  "str_exc (RefreshError m) = m"
| "str_exc (KeyError k) = [CHR 0x27] @ k @ [CHR 0x27]"
| "str_exc (OtherException m) = m"

text \<open>\<open>not x\<close> for an optional string: \<open>None\<close> and the empty string are falsy.\<close>

fun truthy :: "string option \<Rightarrow> bool" where
  "truthy None = False"
| "truthy (Some s) = (s \<noteq> [])"

text \<open>\<open>try: body except Exception: handler\<close>.\<close>

definition try_except :: "exc + 'a \<Rightarrow> (exc \<Rightarrow> exc + 'a) \<Rightarrow> exc + 'a" where
  "try_except body handler = (case body of Inl e \<Rightarrow> handler e | Inr v \<Rightarrow> Inr v)"

subsection \<open>Data\<close>

text \<open>
  A value stored under a key of a row: the key may be missing, hold \<open>None\<close>, or hold a
  value. Only \<open>email\<close> needs the distinction (\<open>get("email", "unknown")\<close> followed by
  string formatting); for the other keys the script treats a missing key and \<open>None\<close>
  alike, and they are options.
\<close>

datatype 'a field = KeyMissing | PyNone | PyVal 'a

text \<open>The values \<open>google_scopes\<close> can hold or \<open>json.loads\<close> can return.\<close>

datatype pyval = PNone | PStr string | PList "pyval list"

record user_data =
  u_email :: "string field"
  google_refresh_token :: "string option"
  google_access_token :: "string option"
  google_token_expiry :: "string option"
  google_scopes :: "pyval option"

text \<open>\<open>google.oauth2.credentials.Credentials\<close>, as the script constructs it.\<close>

record credentials =
  token :: "string option"
  refresh_token :: string
  token_uri :: string
  client_id :: "string option"
  client_secret :: "string option"
  scopes :: pyval

text \<open>
  A \<open>datetime\<close>: its wall-clock reading in microseconds and its \<open>tzinfo\<close> (the UTC offset;
  \<open>None\<close> for a naive value).
\<close>

record datetime =
  dt_wall :: int
  dt_tzinfo :: "int option"

text \<open>An event as the provider returns it, and as \<open>find_perm_events\<close> keeps it.\<close>

record raw_event =
  ev_id :: "string option"
  ev_summary :: "string option"
  ev_start_date :: "string option"
  ev_start_dateTime :: "string option"

record found_event =
  fe_id :: string
  fe_summary :: string
  fe_start :: "string option"

record page =
  items :: "raw_event list"
  nextPageToken :: "string option"

text \<open>\<open>self.stats\<close>.\<close>

record stats =
  users_processed :: nat
  users_successful :: nat
  users_failed :: nat
  total_events_found :: nat
  total_events_deleted :: nat
  errors :: "string list"

text \<open>The other attributes of a \<open>CalendarCleanup\<close> object.\<close>

record 'db cleanup =
  dry_run :: bool
  supabase :: "'db option"
  encryption_key :: "string option"
  google_client_id :: "string option"
  google_client_secret :: "string option"

text \<open>
  The world outside the script. \<open>'db\<close> is the Supabase client, \<open>'svc\<close> the calendar
  service object.
  \<^item> \<open>getenv\<close>: \<open>os.environ.get\<close>;
  \<^item> \<open>create_client\<close>: \<open>supabase.create_client\<close>;
  \<^item> \<open>google_import\<close>: the \<open>ImportError\<close> of the import test of \<open>initialize\<close>, if any;
  \<^item> \<open>query_users\<close>: the \<open>perm_users\<close> query; the result is \<open>response.data\<close>;
  \<^item> \<open>fernet_decrypt key token\<close>: \<open>Fernet(key).decrypt(token).decode('utf-8')\<close> with the
    two \<open>encode\<close> calls;
  \<^item> \<open>json_loads\<close>: \<open>json.loads\<close>;
  \<^item> \<open>fromisoformat\<close>: \<open>datetime.fromisoformat\<close>;
  \<^item> \<open>now tz\<close>: the wall-clock reading of \<open>datetime.now(tz)\<close>;
  \<^item> \<open>refresh\<close>: \<open>credentials.refresh(Request())\<close>, returning the refreshed object;
  \<^item> \<open>build\<close>: \<open>googleapiclient.discovery.build('calendar', 'v3', credentials)\<close>;
  \<^item> \<open>events_list svc q pageToken\<close>: \<open>svc.events().list(...).execute()\<close> on the primary
    calendar, with the fixed time window, \<open>maxResults\<close> and \<open>singleEvents\<close>;
  \<^item> \<open>events_delete svc eventId\<close>: \<open>svc.events().delete(...).execute()\<close>; \<open>None\<close> when it
    returns, the exception when it raises.
\<close>

record ('db, 'svc) env =
  getenv :: "string \<Rightarrow> string option"
  create_client :: "string \<Rightarrow> string \<Rightarrow> exc + 'db option"
  google_import :: "string option"
  query_users :: "'db \<Rightarrow> exc + user_data list option"
  fernet_decrypt :: "string \<Rightarrow> string \<Rightarrow> exc + string"
  json_loads :: "string \<Rightarrow> exc + pyval"
  fromisoformat :: "string \<Rightarrow> exc + datetime"
  now :: "int option \<Rightarrow> int"
  refresh :: "credentials \<Rightarrow> exc + credentials"
  build :: "credentials \<Rightarrow> exc + 'svc"
  events_list :: "'svc \<Rightarrow> string \<Rightarrow> string option \<Rightarrow> exc + page"
  events_delete :: "'svc \<Rightarrow> string \<Rightarrow> exc option"

subsection \<open>Constants\<close>

definition EVENT_PATTERNS :: "string list" where
  "EVENT_PATTERNS =
     [''PWD Expiration:'', ''ETA 9089 Filing:'', ''ETA 9089 Expiration:'',
      ''Ready to File:'', ''Recruitment Expires:'', ''I-140 Deadline:'',
      ''RFI Response Due:'', ''RFE Response Due:'']"

definition init_stats :: stats where
  "init_stats = \<lparr>users_processed = 0, users_successful = 0, users_failed = 0,
     total_events_found = 0, total_events_deleted = 0, errors = []\<rparr>"

subsection \<open>initialize\<close>

definition missing_vars :: "('db, 'svc) env \<Rightarrow> string list" where
  "missing_vars e =
     (if \<not> truthy (getenv e ''SUPABASE_URL'') then [''SUPABASE_URL''] else []) @
     (if \<not> truthy (getenv e ''SUPABASE_KEY'') then [''SUPABASE_KEY''] else []) @
     (if \<not> truthy (getenv e ''ENCRYPTION_KEY'') then [''ENCRYPTION_KEY''] else []) @
     (if \<not> truthy (getenv e ''GOOGLE_CLIENT_ID'') then [''GOOGLE_CLIENT_ID''] else []) @
     (if \<not> truthy (getenv e ''GOOGLE_CLIENT_SECRET'') then [''GOOGLE_CLIENT_SECRET''] else [])"

text \<open>
  \<open>initialize\<close> returns its boolean and the object with the attributes it has set. With an
  empty list of missing variables both Supabase variables are present, so the \<open>None\<close>
  branches of the two case expressions below are never taken.
\<close>

definition initialize :: "('db, 'svc) env \<Rightarrow> bool \<Rightarrow> bool \<times> 'db cleanup" where
  "initialize e dry =
     (let self = \<lparr>dry_run = dry, supabase = None,
                  encryption_key = getenv e ''ENCRYPTION_KEY'',
                  google_client_id = getenv e ''GOOGLE_CLIENT_ID'',
                  google_client_secret = getenv e ''GOOGLE_CLIENT_SECRET''\<rparr>
      in if missing_vars e \<noteq> [] then (False, self)
         else (case (getenv e ''SUPABASE_URL'', getenv e ''SUPABASE_KEY'') of
                 (Some url, Some key) \<Rightarrow>
                   (case create_client e url key of
                      Inl ex \<Rightarrow> (False, self)
                    | Inr db \<Rightarrow>
                        (case google_import e of
                           Some msg \<Rightarrow> (False, self\<lparr>supabase := db\<rparr>)
                         | None \<Rightarrow> (True, self\<lparr>supabase := db\<rparr>)))
               | _ \<Rightarrow> (False, self)))"

subsection \<open>decrypt_token\<close>

definition decrypt_token ::
  "('db, 'svc) env \<Rightarrow> 'db cleanup \<Rightarrow> string option \<Rightarrow> exc + string option" where
  "decrypt_token e self encrypted_token =
     (if \<not> truthy encrypted_token \<or> \<not> truthy (encryption_key self) then Inr None
      else (case (encryption_key self, encrypted_token) of
              (Some key, Some tok) \<Rightarrow>
                try_except
                  (case fernet_decrypt e key tok of
                     Inl ex \<Rightarrow> Inl ex
                   | Inr plain \<Rightarrow> Inr (Some plain))
                  (\<lambda>ex. Inr None)
            | _ \<Rightarrow> Inr None))"

subsection \<open>get_google_credentials\<close>

text \<open>\<open>s.replace("Z", "+00:00")\<close>.\<close>

definition replace_Z :: "string \<Rightarrow> string" where
  "replace_Z s = concat (map (\<lambda>c. if c = CHR ''Z'' then ''+00:00'' else [c]) s)"

text \<open>
  The scopes: \<open>user_data.get("google_scopes", [])\<close>; a string is parsed as JSON, and kept
  as a one-element list when that raises.
\<close>

definition parse_scopes :: "('db, 'svc) env \<Rightarrow> pyval option \<Rightarrow> pyval" where
  "parse_scopes e sc =
     (case sc of
        None \<Rightarrow> PList []
      | Some (PStr s) \<Rightarrow> (case json_loads e s of Inl ex \<Rightarrow> PList [PStr s] | Inr v \<Rightarrow> v)
      | Some v \<Rightarrow> v)"

definition make_credentials ::
  "('db, 'svc) env \<Rightarrow> 'db cleanup \<Rightarrow> user_data \<Rightarrow> string \<Rightarrow> credentials" where
  "make_credentials e self u rt =
     \<lparr>token = google_access_token u,
      refresh_token = rt,
      token_uri = ''https://oauth2.googleapis.com/token'',
      client_id = google_client_id self,
      client_secret = google_client_secret self,
      scopes = parse_scopes e (google_scopes u)\<rparr>"

text \<open>
  The value of the local variable \<open>needs_refresh\<close> when the script reaches
  \<open>if needs_refresh:\<close>. Both datetimes of the comparison carry the same \<open>tzinfo\<close>, so
  Python compares their wall-clock readings.
\<close>

definition needs_refresh :: "('db, 'svc) env \<Rightarrow> string option \<Rightarrow> bool" where
  "needs_refresh e token_expiry =
     (if truthy token_expiry then
        (case token_expiry of
           Some s \<Rightarrow>
             (case fromisoformat e (replace_Z s) of
                Inl ex \<Rightarrow> True
              | Inr expiry_dt \<Rightarrow>
                  (if now e (dt_tzinfo expiry_dt) \<ge> dt_wall expiry_dt then True else False))
         | None \<Rightarrow> True)
      else True)"

definition get_google_credentials ::
  "('db, 'svc) env \<Rightarrow> 'db cleanup \<Rightarrow> user_data \<Rightarrow> exc + credentials option" where
  "get_google_credentials e self u =
     (case decrypt_token e self (google_refresh_token u) of
        Inl ex \<Rightarrow> Inl ex
      | Inr rt_opt \<Rightarrow>
          (if \<not> truthy rt_opt then Inr None
           else (case rt_opt of
                   None \<Rightarrow> Inr None
                 | Some rt \<Rightarrow>
                     (let creds = make_credentials e self u rt in
                      if needs_refresh e (google_token_expiry u) then
                        (case refresh e creds of
                           Inr creds' \<Rightarrow> Inr (Some creds')
                         | Inl (RefreshError m) \<Rightarrow> Inr None
                         | Inl ex \<Rightarrow> Inl ex)
                      else Inr (Some creds)))))"

definition get_calendar_service :: "('db, 'svc) env \<Rightarrow> credentials \<Rightarrow> exc + 'svc" where
  "get_calendar_service e creds = build e creds"

subsection \<open>find_perm_events\<close>

text \<open>\<open>any(summary.startswith(p) for p in EVENT_PATTERNS)\<close>.\<close>

definition matches_pattern :: "string \<Rightarrow> bool" where
  "matches_pattern summary = list_ex (\<lambda>p. prefix p summary) EVENT_PATTERNS"

definition summary_of :: "raw_event \<Rightarrow> string" where
  "summary_of ev = (case ev_summary ev of None \<Rightarrow> [] | Some s \<Rightarrow> s)"

text \<open>\<open>a or b\<close> on the two keys of \<open>start\<close>.\<close>

definition start_of :: "raw_event \<Rightarrow> string option" where
  "start_of ev = (if truthy (ev_start_date ev) then ev_start_date ev else ev_start_dateTime ev)"

text \<open>
  The inner \<open>for event in events\<close> loop. \<open>events_found\<close> is a list the loop appends to, so
  when \<open>event['id']\<close> raises the entries appended so far stay in it: the result is the
  exception, if any, and the list.
\<close>

fun add_events :: "raw_event list \<Rightarrow> found_event list \<Rightarrow> exc option \<times> found_event list" where
  "add_events [] events_found = (None, events_found)"
| "add_events (ev # evs) events_found =
     (if matches_pattern (summary_of ev) then
        (case ev_id ev of
           None \<Rightarrow> (Some (KeyError ''id''), events_found)
         | Some i \<Rightarrow>
             (if \<not> list_ex (\<lambda>f. fe_id f = i) events_found then
                add_events evs
                  (events_found @ [\<lparr>fe_id = i, fe_summary = summary_of ev, fe_start = start_of ev\<rparr>])
              else add_events evs events_found))
      else add_events evs events_found)"

text \<open>
  The \<open>while True\<close> loop over the pages of one pattern. The provider decides whether it
  ends, so the loop carries a bound on the number of pages it fetches and returns \<open>None\<close>
  when the bound is reached.
\<close>

fun list_pages ::
  "nat \<Rightarrow> (string \<Rightarrow> string option \<Rightarrow> exc + page) \<Rightarrow> string \<Rightarrow> string option \<Rightarrow>
   found_event list \<Rightarrow> (exc option \<times> found_event list) option" where
  "list_pages 0 lst pattern page_token events_found = None"
| "list_pages (Suc n) lst pattern page_token events_found =
     (case lst pattern page_token of
        Inl ex \<Rightarrow> Some (Some ex, events_found)
      | Inr events_result \<Rightarrow>
          (case add_events (items events_result) events_found of
             (Some ex, found') \<Rightarrow> Some (Some ex, found')
           | (None, found') \<Rightarrow>
               (if \<not> truthy (nextPageToken events_result) then Some (None, found')
                else list_pages n lst pattern (nextPageToken events_result) found')))"

text \<open>The \<open>for pattern in EVENT_PATTERNS\<close> loop, inside the \<open>try\<close>.\<close>

fun search_patterns ::
  "nat \<Rightarrow> (string \<Rightarrow> string option \<Rightarrow> exc + page) \<Rightarrow> string list \<Rightarrow>
   found_event list \<Rightarrow> (exc option \<times> found_event list) option" where
  "search_patterns n lst [] events_found = Some (None, events_found)"
| "search_patterns n lst (pattern # ps) events_found =
     (case list_pages n lst pattern None events_found of
        None \<Rightarrow> None
      | Some (Some ex, found') \<Rightarrow> Some (Some ex, found')
      | Some (None, found') \<Rightarrow> search_patterns n lst ps found')"

text \<open>The handler logs the exception and falls through to \<open>return events_found\<close>.\<close>

definition find_perm_events ::
  "nat \<Rightarrow> ('db, 'svc) env \<Rightarrow> 'svc \<Rightarrow> found_event list option" where
  "find_perm_events n e service =
     (case search_patterns n (events_list e service) EVENT_PATTERNS [] of
        None \<Rightarrow> None
      | Some (ex, events_found) \<Rightarrow> Some events_found)"

subsection \<open>delete_events\<close>

text \<open>
  Besides \<open>deleted_count\<close> the model returns the deletion requests sent to the provider,
  in order: the event id and whether the request returned.
\<close>

fun delete_loop ::
  "bool \<Rightarrow> (string \<Rightarrow> exc option) \<Rightarrow> found_event list \<Rightarrow> nat \<Rightarrow> (string \<times> bool) list \<Rightarrow>
   nat \<times> (string \<times> bool) list" where
  "delete_loop dry del [] deleted_count calls = (deleted_count, calls)"
| "delete_loop dry del (event # events) deleted_count calls =
     (if dry then delete_loop dry del events (deleted_count + 1) calls
      else (case del (fe_id event) of
              None \<Rightarrow> delete_loop dry del events (deleted_count + 1) (calls @ [(fe_id event, True)])
            | Some ex \<Rightarrow> delete_loop dry del events deleted_count (calls @ [(fe_id event, False)])))"

definition delete_events ::
  "('db, 'svc) env \<Rightarrow> 'db cleanup \<Rightarrow> 'svc \<Rightarrow> found_event list \<Rightarrow> nat \<times> (string \<times> bool) list" where
  "delete_events e self service events =
     delete_loop (dry_run self) (events_delete e service) events 0 []"

subsection \<open>process_user\<close>

text \<open>
  The result is \<open>None\<close> when a page loop does not end within the bound; otherwise what
  \<open>process_user\<close> returns or raises, the statistics as it leaves them, and the deletion
  requests it has sent.
\<close>

definition process_user ::
  "nat \<Rightarrow> ('db, 'svc) env \<Rightarrow> 'db cleanup \<Rightarrow> user_data \<Rightarrow> stats \<Rightarrow>
   ((exc + bool) \<times> stats \<times> (string \<times> bool) list) option" where
  "process_user n e self u st =
     (case get_google_credentials e self u of
        Inl ex \<Rightarrow> Some (Inl ex, st, [])
      | Inr None \<Rightarrow> Some (Inr False, st, [])
      | Inr (Some creds) \<Rightarrow>
          (case get_calendar_service e creds of
             Inl ex \<Rightarrow> Some (Inr False, st, [])
           | Inr service \<Rightarrow>
               (case find_perm_events n e service of
                  None \<Rightarrow> None
                | Some events \<Rightarrow>
                    (let events_found = length events;
                         st1 = st\<lparr>total_events_found := total_events_found st + events_found\<rparr>
                     in if events_found = 0 then Some (Inr True, st1, [])
                        else (case delete_events e self service events of
                                (deleted, calls) \<Rightarrow>
                                  Some (Inr True,
                                        st1\<lparr>total_events_deleted := total_events_deleted st1 + deleted\<rparr>,
                                        calls))))))"

subsection \<open>run and main\<close>

text \<open>\<open>user_dict.get("email", "unknown")\<close> as the f-string prints it.\<close>

definition user_email :: "user_data \<Rightarrow> string" where
  "user_email u =
     (case u_email u of KeyMissing \<Rightarrow> ''unknown'' | PyNone \<Rightarrow> ''None'' | PyVal s \<Rightarrow> s)"

text \<open>One iteration of \<open>for i, user in enumerate(users)\<close>.\<close>

definition run_user ::
  "nat \<Rightarrow> ('db, 'svc) env \<Rightarrow> 'db cleanup \<Rightarrow> user_data \<Rightarrow> stats \<times> (string \<times> bool) list \<Rightarrow>
   (stats \<times> (string \<times> bool) list) option" where
  "run_user n e self u sc =
     (case sc of (st, calls) \<Rightarrow>
        (case process_user n e self u (st\<lparr>users_processed := users_processed st + 1\<rparr>) of
           None \<Rightarrow> None
         | Some (Inr True, st', cs) \<Rightarrow>
             Some (st'\<lparr>users_successful := users_successful st' + 1\<rparr>, calls @ cs)
         | Some (Inr False, st', cs) \<Rightarrow>
             Some (st'\<lparr>users_failed := users_failed st' + 1,
                      errors := errors st' @ [''User '' @ user_email u @ '': credential/auth failure'']\<rparr>,
                   calls @ cs)
         | Some (Inl ex, st', cs) \<Rightarrow>
             Some (st'\<lparr>users_failed := users_failed st' + 1,
                      errors := errors st' @ [''User '' @ user_email u @ '': '' @ str_exc ex]\<rparr>,
                   calls @ cs)))"

fun run_users ::
  "nat \<Rightarrow> ('db, 'svc) env \<Rightarrow> 'db cleanup \<Rightarrow> user_data list \<Rightarrow> stats \<times> (string \<times> bool) list \<Rightarrow>
   (stats \<times> (string \<times> bool) list) option" where
  "run_users n e self [] sc = Some sc"
| "run_users n e self (u # us) sc =
     (case run_user n e self u sc of
        None \<Rightarrow> None
      | Some sc' \<Rightarrow> run_users n e self us sc')"

text \<open>
  \<open>run\<close> returns its boolean, the statistics and the deletion requests of the whole run;
  \<open>None\<close> when some page loop does not end within the bound.
\<close>

definition run ::
  "nat \<Rightarrow> ('db, 'svc) env \<Rightarrow> bool \<Rightarrow> (bool \<times> stats \<times> (string \<times> bool) list) option" where
  "run n e dry =
     (case initialize e dry of
        (False, self) \<Rightarrow> Some (False, init_stats, [])
      | (True, self) \<Rightarrow>
          (case supabase self of
             None \<Rightarrow> Some (False, init_stats, [])
           | Some db \<Rightarrow>
               (case query_users e db of
                  Inl ex \<Rightarrow> Some (False, init_stats, [])
                | Inr data \<Rightarrow>
                    (let users = (case data of None \<Rightarrow> [] | Some rows \<Rightarrow> rows) in
                     if users = [] then Some (True, init_stats, [])
                     else (case run_users n e self users (init_stats, []) of
                             None \<Rightarrow> None
                           | Some (st, calls) \<Rightarrow> Some (users_failed st = 0, st, calls))))))"

text \<open>The argument of \<open>sys.exit\<close>.\<close>

definition main :: "nat \<Rightarrow> ('db, 'svc) env \<Rightarrow> bool \<Rightarrow> int option" where
  "main n e dry =
     (case run n e dry of
        None \<Rightarrow> None
      | Some (success, st, calls) \<Rightarrow> Some (if success then 0 else 1))"

section \<open>The specification's reading of discovery\<close>

text \<open>
  EventMatcher as the specification words it. An entry qualifies when it has an identity
  and its display text starts with one of the patterns; of the qualifying entries one per
  identity is kept, the first seen, in the order seen.
\<close>

fun first_seen :: "found_event list \<Rightarrow> found_event list" where
  "first_seen [] = []"
| "first_seen (x # xs) = x # first_seen (filter (\<lambda>y. fe_id y \<noteq> fe_id x) xs)"

definition qualifying :: "raw_event list \<Rightarrow> found_event list" where
  "qualifying raw =
     concat (map (\<lambda>ev. case ev_id ev of
                          None \<Rightarrow> []
                        | Some i \<Rightarrow>
                            if matches_pattern (summary_of ev)
                            then [\<lparr>fe_id = i, fe_summary = summary_of ev, fe_start = start_of ev\<rparr>]
                            else []) raw)"

definition filterAndDedupe :: "raw_event list \<Rightarrow> found_event list" where
  "filterAndDedupe raw = first_seen (qualifying raw)"

text \<open>
  The raw entries discovery returns when no request raises: the pages of one pattern in
  order, then the patterns in order. \<open>None\<close> when a request raises or the pages of a
  pattern do not end within the bound.
\<close>

fun pages_items ::
  "nat \<Rightarrow> (string \<Rightarrow> string option \<Rightarrow> exc + page) \<Rightarrow> string \<Rightarrow> string option \<Rightarrow>
   raw_event list option" where
  "pages_items 0 lst pattern page_token = None"
| "pages_items (Suc n) lst pattern page_token =
     (case lst pattern page_token of
        Inl ex \<Rightarrow> None
      | Inr events_result \<Rightarrow>
          (if \<not> truthy (nextPageToken events_result) then Some (items events_result)
           else (case pages_items n lst pattern (nextPageToken events_result) of
                   None \<Rightarrow> None
                 | Some rest \<Rightarrow> Some (items events_result @ rest))))"

fun discovered ::
  "nat \<Rightarrow> (string \<Rightarrow> string option \<Rightarrow> exc + page) \<Rightarrow> string list \<Rightarrow> raw_event list option" where
  "discovered n lst [] = Some []"
| "discovered n lst (pattern # ps) =
     (case pages_items n lst pattern None of
        None \<Rightarrow> None
      | Some raw \<Rightarrow>
          (case discovered n lst ps of None \<Rightarrow> None | Some rest \<Rightarrow> Some (raw @ rest)))"

text \<open>
  CalendarClient as the specification words it: an error while listing one pattern gives
  zero results for that pattern, and the next pattern is searched.
\<close>

fun search_patterns_isolated ::
  "nat \<Rightarrow> (string \<Rightarrow> string option \<Rightarrow> exc + page) \<Rightarrow> string list \<Rightarrow>
   found_event list \<Rightarrow> found_event list option" where
  "search_patterns_isolated n lst [] events_found = Some events_found"
| "search_patterns_isolated n lst (pattern # ps) events_found =
     (case list_pages n lst pattern None events_found of
        None \<Rightarrow> None
      | Some (Some ex, found') \<Rightarrow> search_patterns_isolated n lst ps events_found
      | Some (None, found') \<Rightarrow> search_patterns_isolated n lst ps found')"

definition find_perm_events_per_pattern ::
  "nat \<Rightarrow> ('db, 'svc) env \<Rightarrow> 'svc \<Rightarrow> found_event list option" where
  "find_perm_events_per_pattern n e service =
     search_patterns_isolated n (events_list e service) EVENT_PATTERNS []"

section \<open>A concrete world\<close>

text \<open>
  Five users: alice's token has expired and refreshes; bob's stored secret does not
  decrypt; carol's refresh is refused with \<open>RefreshError\<close>; dave's refresh raises another
  exception; erin's token is valid until 2099. The clock stands at 2026-11-04. Alice's
  calendar returns entry \<open>a\<close> twice and entry \<open>c\<close> from two searches, and the deletion of
  \<open>c\<close> fails. Erin's calendar fails on the second pattern.
\<close>

definition ev :: "string \<Rightarrow> string \<Rightarrow> raw_event" where
  "ev i s = \<lparr>ev_id = Some i, ev_summary = Some s,
             ev_start_date = Some ''2025-06-01'', ev_start_dateTime = None\<rparr>"

definition demo_list :: "string \<Rightarrow> string \<Rightarrow> string option \<Rightarrow> exc + page" where
  "demo_list svc q page_token =
     (if svc = ''rt-alice'' then
        (if q = ''PWD Expiration:'' \<and> page_token = None then
           Inr \<lparr>items = [ev ''a'' ''PWD Expiration: Acme'', ev ''a'' ''PWD Expiration: Acme'',
                          ev ''b'' ''Unrelated''],
                nextPageToken = Some ''p2''\<rparr>
         else if q = ''PWD Expiration:'' \<and> page_token = Some ''p2'' then
           Inr \<lparr>items = [ev ''c'' ''ETA 9089 Filing: Initech''], nextPageToken = None\<rparr>
         else if q = ''ETA 9089 Filing:'' then
           Inr \<lparr>items = [ev ''c'' ''ETA 9089 Filing: Initech''], nextPageToken = None\<rparr>
         else Inr \<lparr>items = [], nextPageToken = None\<rparr>)
      else if svc = ''rt-erin'' then
        (if q = ''PWD Expiration:'' then
           Inr \<lparr>items = [ev ''d'' ''PWD Expiration: Globex''], nextPageToken = None\<rparr>
         else if q = ''ETA 9089 Filing:'' then Inl (OtherException ''HttpError 503'')
         else if q = ''ETA 9089 Expiration:'' then
           Inr \<lparr>items = [ev ''e'' ''ETA 9089 Expiration: Globex''], nextPageToken = None\<rparr>
         else Inr \<lparr>items = [], nextPageToken = None\<rparr>)
      else Inr \<lparr>items = [], nextPageToken = None\<rparr>)"

definition demo_env :: "user_data list \<Rightarrow> (unit, string) env" where
  "demo_env users =
     \<lparr>getenv = map_of [(''SUPABASE_URL'', ''https://db''), (''SUPABASE_KEY'', ''svc''),
                       (''ENCRYPTION_KEY'', ''k3y''), (''GOOGLE_CLIENT_ID'', ''cid''),
                       (''GOOGLE_CLIENT_SECRET'', ''sec'')],
      create_client = (\<lambda>url key. Inr (Some ())),
      google_import = None,
      query_users = (\<lambda>db. Inr (Some users)),
      fernet_decrypt = (\<lambda>key tok. if key = ''k3y'' \<and> take 4 tok = ''enc-''
                                    then Inr (''rt-'' @ drop 4 tok)
                                    else Inl (OtherException ''InvalidToken'')),
      json_loads = (\<lambda>s. Inl (OtherException ''JSONDecodeError'')),
      fromisoformat = (\<lambda>s. if s = ''2020-01-01T00:00:00+00:00''
                              then Inr \<lparr>dt_wall = 1577836800, dt_tzinfo = Some 0\<rparr>
                            else if s = ''2099-01-01T00:00:00+00:00''
                              then Inr \<lparr>dt_wall = 4070908800, dt_tzinfo = Some 0\<rparr>
                            else Inl (OtherException ''Invalid isoformat string'')),
      now = (\<lambda>tz. 1793786400),
      refresh = (\<lambda>c. if refresh_token c = ''rt-revoked'' then Inl (RefreshError ''invalid_grant'')
                      else if refresh_token c = ''rt-neterr''
                        then Inl (OtherException ''connection reset'')
                      else Inr (c\<lparr>token := Some ''fresh''\<rparr>)),
      build = (\<lambda>c. Inr (refresh_token c)),
      events_list = demo_list,
      events_delete = (\<lambda>svc i. if i = ''c'' then Some (OtherException ''HttpError 410'') else None)\<rparr>"

definition demo_user :: "string \<Rightarrow> string \<Rightarrow> string \<Rightarrow> user_data" where
  "demo_user mail tok expiry =
     \<lparr>u_email = PyVal mail, google_refresh_token = Some tok, google_access_token = Some ''old'',
      google_token_expiry = Some expiry, google_scopes = Some (PStr ''calendar'')\<rparr>"

definition alice :: user_data where
  "alice = demo_user ''alice@example.com'' ''enc-alice'' ''2020-01-01T00:00:00Z''"

definition bob :: user_data where
  "bob = demo_user ''bob@example.com'' ''garbled'' ''2020-01-01T00:00:00Z''"

definition carol :: user_data where
  "carol = demo_user ''carol@example.com'' ''enc-revoked'' ''2020-01-01T00:00:00Z''"

definition dave :: user_data where
  "dave = demo_user ''dave@example.com'' ''enc-neterr'' ''not a date''"

definition erin :: user_data where
  "erin = demo_user ''erin@example.com'' ''enc-erin'' ''2099-01-01T00:00:00+00:00''"

definition demo_self :: "bool \<Rightarrow> unit cleanup" where
  "demo_self dry = \<lparr>dry_run = dry, supabase = Some (), encryption_key = Some ''k3y'',
     google_client_id = Some ''cid'', google_client_secret = Some ''sec''\<rparr>"

section \<open>Lemmas\<close>

subsection \<open>Unfolding on concrete inputs\<close>

lemmas demo_defs = demo_env_def demo_list_def demo_user_def alice_def bob_def carol_def dave_def
  erin_def demo_self_def ev_def

lemmas code_defs = missing_vars_def initialize_def decrypt_token_def try_except_def replace_Z_def
  parse_scopes_def make_credentials_def needs_refresh_def get_google_credentials_def
  get_calendar_service_def matches_pattern_def summary_of_def start_of_def EVENT_PATTERNS_def
  find_perm_events_def delete_events_def process_user_def run_user_def run_def main_def
  init_stats_def Let_def

subsection \<open>Deletion\<close>

lemma delete_loop_dry:
  "delete_loop True del evs c calls = (c + length evs, calls)"
  by (induction evs arbitrary: c) simp_all

lemma delete_loop_live:
  "delete_loop False del evs c calls =
     (c + length (filter (\<lambda>ev. del (fe_id ev) = None) evs),
      calls @ map (\<lambda>ev. (fe_id ev, del (fe_id ev) = None)) evs)"
  by (induction evs arbitrary: c calls) (simp_all split: option.splits)

lemma delete_loop_le:
  "fst (delete_loop dry del evs c calls) \<le> c + length evs"
proof (cases dry)
  case True
  then show ?thesis by (simp add: delete_loop_dry)
next
  case False
  have "length (filter (\<lambda>ev. del (fe_id ev) = None) evs) \<le> length evs"
    by (rule length_filter_le)
  with False show ?thesis by (simp add: delete_loop_live)
qed

subsection \<open>The dry-run flag is read by delete_events only\<close>

lemma decrypt_token_dry_run:
  "decrypt_token e (self\<lparr>dry_run := b\<rparr>) tok = decrypt_token e self tok"
  by (simp add: decrypt_token_def)

lemma make_credentials_dry_run:
  "make_credentials e (self\<lparr>dry_run := b\<rparr>) u rt = make_credentials e self u rt"
  by (simp add: make_credentials_def)

lemma get_google_credentials_dry_run:
  "get_google_credentials e (self\<lparr>dry_run := b\<rparr>) u = get_google_credentials e self u"
  by (simp add: get_google_credentials_def decrypt_token_dry_run make_credentials_dry_run
      cong: sum.case_cong option.case_cong if_cong)

lemma initialize_dry:
  "initialize e dry = (fst (initialize e False), (snd (initialize e False))\<lparr>dry_run := dry\<rparr>)"
  by (simp add: initialize_def Let_def split: option.splits sum.splits)

lemma process_user_dry:
  "process_user n e (self\<lparr>dry_run := True\<rparr>) u st =
     (case get_google_credentials e self u of
        Inl ex \<Rightarrow> Some (Inl ex, st, [])
      | Inr None \<Rightarrow> Some (Inr False, st, [])
      | Inr (Some creds) \<Rightarrow>
          (case build e creds of
             Inl ex \<Rightarrow> Some (Inr False, st, [])
           | Inr svc \<Rightarrow>
               (case find_perm_events n e svc of
                  None \<Rightarrow> None
                | Some evs \<Rightarrow>
                    Some (Inr True,
                          st\<lparr>total_events_found := total_events_found st + length evs,
                             total_events_deleted := total_events_deleted st + length evs\<rparr>,
                          []))))"
  by (simp add: process_user_def get_google_credentials_dry_run get_calendar_service_def
        delete_events_def delete_loop_dry Let_def split: sum.splits option.splits)

lemma process_user_live:
  "process_user n e (self\<lparr>dry_run := False\<rparr>) u st =
     (case get_google_credentials e self u of
        Inl ex \<Rightarrow> Some (Inl ex, st, [])
      | Inr None \<Rightarrow> Some (Inr False, st, [])
      | Inr (Some creds) \<Rightarrow>
          (case build e creds of
             Inl ex \<Rightarrow> Some (Inr False, st, [])
           | Inr svc \<Rightarrow>
               (case find_perm_events n e svc of
                  None \<Rightarrow> None
                | Some evs \<Rightarrow>
                    Some (Inr True,
                          st\<lparr>total_events_found := total_events_found st + length evs,
                             total_events_deleted := total_events_deleted st +
                               length (filter (\<lambda>ev. events_delete e svc (fe_id ev) = None) evs)\<rparr>,
                          map (\<lambda>ev. (fe_id ev, events_delete e svc (fe_id ev) = None)) evs))))"
  by (simp add: process_user_def get_google_credentials_dry_run get_calendar_service_def
        delete_events_def delete_loop_live Let_def split: sum.splits option.splits)

subsection \<open>What process_user does to the statistics\<close>

lemma process_user_stats:
  assumes "process_user n e self u st = Some (r, st', cs)"
  shows "users_processed st' = users_processed st \<and> users_successful st' = users_successful st \<and>
         users_failed st' = users_failed st \<and> errors st' = errors st \<and>
         (\<exists>k d. d \<le> k \<and> total_events_found st' = total_events_found st + k \<and>
                total_events_deleted st' = total_events_deleted st + d)"
proof -
  have le: "d \<le> length evs" if "delete_events e self svc evs = (d, c)" for svc evs d c
    using delete_loop_le[of "dry_run self" "events_delete e svc" evs 0 "[]"] that
    by (simp add: delete_events_def)
  show ?thesis
    using assms le
    apply (simp add: process_user_def Let_def split: sum.splits option.splits if_splits prod.splits)
    apply auto
    done
qed


lemma run_user_inv:
  assumes "run_user n e self u (st, c) = Some (st', c')"
      and "users_processed st = users_successful st + users_failed st"
      and "total_events_deleted st \<le> total_events_found st"
  shows "users_processed st' = users_successful st' + users_failed st' \<and>
         total_events_deleted st' \<le> total_events_found st' \<and>
         users_processed st' = users_processed st + 1"
proof -
  obtain r st1 cs where
    p: "process_user n e self u (st\<lparr>users_processed := users_processed st + 1\<rparr>) = Some (r, st1, cs)"
    using assms(1) by (auto simp: run_user_def split: option.splits)
  note s = process_user_stats[OF p]
  show ?thesis
    using assms p s by (auto simp: run_user_def split: sum.splits bool.splits)
qed

lemma run_users_inv:
  assumes "run_users n e self us (st, c) = Some (st', c')"
      and "users_processed st = users_successful st + users_failed st"
      and "total_events_deleted st \<le> total_events_found st"
  shows "users_processed st' = users_successful st' + users_failed st' \<and>
         total_events_deleted st' \<le> total_events_found st' \<and>
         users_processed st' = users_processed st + length us"
  using assms
proof (induction us arbitrary: st c)
  case Nil
  then show ?case by simp
next
  case (Cons u us)
  from Cons.prems(1) obtain st1 c1 where
    1: "run_user n e self u (st, c) = Some (st1, c1)" and
    2: "run_users n e self us (st1, c1) = Some (st', c')"
    by (auto split: option.splits)
  from run_user_inv[OF 1 Cons.prems(2,3)] Cons.IH[OF 2] show ?case by simp
qed

lemma run_users_append:
  "run_users n e self (us1 @ us2) sc =
     (case run_users n e self us1 sc of None \<Rightarrow> None | Some sc' \<Rightarrow> run_users n e self us2 sc')"
  by (induction us1 arbitrary: sc) (simp_all split: option.splits)

lemma run_users_processed:
  "run_users n e self us (st, c) = Some (st', c') \<Longrightarrow>
   users_processed st' = users_processed st + length us"
proof (induction us arbitrary: st c)
  case Nil
  then show ?case by simp
next
  case (Cons u us)
  from Cons.prems obtain st1 c1 where
    1: "run_user n e self u (st, c) = Some (st1, c1)" and
    2: "run_users n e self us (st1, c1) = Some (st', c')"
    by (auto split: option.splits)
  from 1 obtain r st2 cs where
    p: "process_user n e self u (st\<lparr>users_processed := users_processed st + 1\<rparr>) = Some (r, st2, cs)"
    by (auto simp: run_user_def split: option.splits)
  have "users_processed st1 = users_processed st + 1"
    using 1 p process_user_stats[OF p]
    by (auto simp: run_user_def split: sum.splits bool.splits)
  with Cons.IH[OF 2] show ?case by simp
qed

lemma process_user_raises:
  assumes "process_user n e self u st = Some (Inl ex, st', cs)"
  shows "st' = st \<and> cs = [] \<and> get_google_credentials e self u = Inl ex"
  using assms
  by (auto simp: process_user_def Let_def split: sum.splits option.splits if_splits prod.splits)

lemma run_users_total:
  "(\<forall>u \<in> set us. \<forall>st. process_user n e self u st \<noteq> None) \<Longrightarrow>
   run_users n e self us sc \<noteq> None"
proof (induction us arbitrary: sc)
  case Nil
  then show ?case by simp
next
  case (Cons u us)
  obtain st c where sc: "sc = (st, c)" by (cases sc)
  from Cons.prems have "process_user n e self u (st\<lparr>users_processed := users_processed st + 1\<rparr>) \<noteq> None"
    by simp
  then have "run_user n e self u sc \<noteq> None"
    by (auto simp: run_user_def sc split: sum.splits bool.splits)
  then obtain sc' where "run_user n e self u sc = Some sc'"
    by auto
  with Cons show ?case by simp
qed

subsection \<open>Dry run against live run\<close>

lemma length_filter_eq_all: "length (filter P xs) = length xs \<longleftrightarrow> (\<forall>x \<in> set xs. P x)"
proof (induction xs)
  case Nil
  then show ?case by simp
next
  case (Cons x xs)
  have "length (filter P xs) \<noteq> Suc (length xs)"
    using length_filter_le[of P xs] by linarith
  with Cons show ?case by auto
qed

lemma run_user_parity_none:
  "run_user n e (self\<lparr>dry_run := True\<rparr>) u (sd, cd) = None \<longleftrightarrow>
   run_user n e (self\<lparr>dry_run := False\<rparr>) u (sl, cl) = None"
  by (auto simp: run_user_def process_user_dry process_user_live
           split: sum.splits option.splits)

lemma run_user_parity:
  assumes "users_processed sd = users_processed sl" and "users_successful sd = users_successful sl"
      and "users_failed sd = users_failed sl" and "total_events_found sd = total_events_found sl"
      and "errors sd = errors sl"
      and "run_user n e (self\<lparr>dry_run := True\<rparr>) u (sd, cd) = Some (sd', cd')"
      and "run_user n e (self\<lparr>dry_run := False\<rparr>) u (sl, cl) = Some (sl', cl')"
  shows "users_processed sd' = users_processed sl'"
    and "users_successful sd' = users_successful sl'"
    and "users_failed sd' = users_failed sl'"
    and "total_events_found sd' = total_events_found sl'"
    and "errors sd' = errors sl'" and "cd' = cd"
    and "\<exists>new. cl' = cl @ new \<and>
               total_events_found sd' = total_events_found sd + length new \<and>
               total_events_deleted sd' = total_events_deleted sd + length new \<and>
               total_events_deleted sl' = total_events_deleted sl + length (filter snd new)"
  using assms
  by (auto simp: run_user_def process_user_dry process_user_live filter_map o_def
           split: sum.splits option.splits)

lemma run_users_parity_none:
  "run_users n e (self\<lparr>dry_run := True\<rparr>) us (sd, cd) = None \<longleftrightarrow>
   run_users n e (self\<lparr>dry_run := False\<rparr>) us (sl, cl) = None"
proof (induction us arbitrary: sd cd sl cl)
  case Nil
  then show ?case by simp
next
  case (Cons u us)
  show ?case
  proof (cases "run_user n e (self\<lparr>dry_run := True\<rparr>) u (sd, cd)")
    case None
    with run_user_parity_none[of n e self u sd cd sl cl] show ?thesis by simp
  next
    case (Some a)
    obtain sd1 cd1 where a: "a = (sd1, cd1)" by (cases a)
    from Some run_user_parity_none[of n e self u sd cd sl cl] obtain sl1 cl1 where
      l: "run_user n e (self\<lparr>dry_run := False\<rparr>) u (sl, cl) = Some (sl1, cl1)"
      by auto
    from Cons.IH[of sd1 cd1 sl1 cl1] Some a l show ?thesis by simp
  qed
qed

lemma run_users_parity:
  assumes "users_processed sd = users_processed sl" and "users_successful sd = users_successful sl"
      and "users_failed sd = users_failed sl" and "total_events_found sd = total_events_found sl"
      and "errors sd = errors sl"
      and "run_users n e (self\<lparr>dry_run := True\<rparr>) us (sd, cd) = Some (sd', cd')"
      and "run_users n e (self\<lparr>dry_run := False\<rparr>) us (sl, cl) = Some (sl', cl')"
  shows "users_processed sd' = users_processed sl' \<and>
         users_successful sd' = users_successful sl' \<and>
         users_failed sd' = users_failed sl' \<and>
         total_events_found sd' = total_events_found sl' \<and>
         errors sd' = errors sl' \<and> cd' = cd \<and>
         (\<exists>new. cl' = cl @ new \<and>
               total_events_found sd' = total_events_found sd + length new \<and>
               total_events_deleted sd' = total_events_deleted sd + length new \<and>
               total_events_deleted sl' = total_events_deleted sl + length (filter snd new))"
  using assms
proof (induction us arbitrary: sd cd sl cl)
  case Nil
  then show ?case by simp
next
  case (Cons u us)
  from Cons.prems(6) obtain sd1 cd1 where
    d: "run_user n e (self\<lparr>dry_run := True\<rparr>) u (sd, cd) = Some (sd1, cd1)" and
    d1: "run_users n e (self\<lparr>dry_run := True\<rparr>) us (sd1, cd1) = Some (sd', cd')"
    by (auto split: option.splits)
  from Cons.prems(7) obtain sl1 cl1 where
    l: "run_user n e (self\<lparr>dry_run := False\<rparr>) u (sl, cl) = Some (sl1, cl1)" and
    l1: "run_users n e (self\<lparr>dry_run := False\<rparr>) us (sl1, cl1) = Some (sl', cl')"
    by (auto split: option.splits)
  note s = run_user_parity[OF Cons.prems(1-5) d l]
  from s(7) obtain new1 where
    c: "cl1 = cl @ new1"
       "total_events_found sd1 = total_events_found sd + length new1"
       "total_events_deleted sd1 = total_events_deleted sd + length new1"
       "total_events_deleted sl1 = total_events_deleted sl + length (filter snd new1)"
    by (elim exE conjE)
  note ih = Cons.IH[OF s(1-5) d1 l1]
  from ih obtain new2 where
    c2: "cl' = cl1 @ new2"
        "total_events_found sd' = total_events_found sd1 + length new2"
        "total_events_deleted sd' = total_events_deleted sd1 + length new2"
        "total_events_deleted sl' = total_events_deleted sl1 + length (filter snd new2)"
    by (elim exE conjE)
  have "cl' = cl @ (new1 @ new2) \<and>
        total_events_found sd' = total_events_found sd + length (new1 @ new2) \<and>
        total_events_deleted sd' = total_events_deleted sd + length (new1 @ new2) \<and>
        total_events_deleted sl' = total_events_deleted sl + length (filter snd (new1 @ new2))"
    using c c2 by simp
  then have ex: "\<exists>new. cl' = cl @ new \<and>
               total_events_found sd' = total_events_found sd + length new \<and>
               total_events_deleted sd' = total_events_deleted sd + length new \<and>
               total_events_deleted sl' = total_events_deleted sl + length (filter snd new)"
    by (rule exI)
  from ih have "cd' = cd1" by simp
  with s(6) have "cd' = cd" by simp
  with ih ex show ?case by simp
qed

lemma run_cases:
  "(\<exists>b. run n e True = Some (b, init_stats, []) \<and> run n e False = Some (b, init_stats, [])) \<or>
   (\<exists>self users.
      run n e True =
        (case run_users n e (self\<lparr>dry_run := True\<rparr>) users (init_stats, []) of
           None \<Rightarrow> None | Some (st, calls) \<Rightarrow> Some (users_failed st = 0, st, calls)) \<and>
      run n e False =
        (case run_users n e (self\<lparr>dry_run := False\<rparr>) users (init_stats, []) of
           None \<Rightarrow> None | Some (st, calls) \<Rightarrow> Some (users_failed st = 0, st, calls)))"
proof -
  define b where "b = fst (initialize e False)"
  define self where "self = snd (initialize e False)"
  have iT: "initialize e True = (b, self\<lparr>dry_run := True\<rparr>)"
    unfolding b_def self_def by (rule initialize_dry)
  have iF: "initialize e False = (b, self\<lparr>dry_run := False\<rparr>)"
    unfolding b_def self_def by (rule initialize_dry)
  show ?thesis
  proof (cases b)
    case False
    with iT iF have "run n e True = Some (False, init_stats, []) \<and> run n e False = Some (False, init_stats, [])"
      by (simp add: run_def)
    then show ?thesis by blast
  next
    case True
    show ?thesis
    proof (cases "supabase self")
      case None
      with True iT iF have "run n e True = Some (False, init_stats, []) \<and> run n e False = Some (False, init_stats, [])"
        by (simp add: run_def)
      then show ?thesis by blast
    next
      case (Some db)
      show ?thesis
      proof (cases "query_users e db")
        case (Inl ex)
        with Some True iT iF have "run n e True = Some (False, init_stats, []) \<and> run n e False = Some (False, init_stats, [])"
          by (simp add: run_def)
        then show ?thesis by blast
      next
        case (Inr data)
        define users where "users = (case data of None \<Rightarrow> [] | Some rows \<Rightarrow> rows)"
        show ?thesis
        proof (cases "users = []")
          case e: True
          with Inr Some True iT iF have "run n e True = Some (True, init_stats, []) \<and> run n e False = Some (True, init_stats, [])"
            by (simp add: run_def users_def)
          then show ?thesis by blast
        next
          case ne: False
          have rT: "run n e True =
              (case run_users n e (self\<lparr>dry_run := True\<rparr>) users (init_stats, []) of
                 None \<Rightarrow> None | Some (st, calls) \<Rightarrow> Some (users_failed st = 0, st, calls))"
            using ne Inr Some True iT by (simp add: run_def users_def)
          have rF: "run n e False =
              (case run_users n e (self\<lparr>dry_run := False\<rparr>) users (init_stats, []) of
                 None \<Rightarrow> None | Some (st, calls) \<Rightarrow> Some (users_failed st = 0, st, calls))"
            using ne Inr Some True iF by (simp add: run_def users_def)
          from rT rF show ?thesis by blast
        qed
      qed
    qed
  qed
qed

subsection \<open>Discovery\<close>

lemma ids_first_seen: "fe_id ` set (first_seen xs) = fe_id ` set xs"
  by (induction xs rule: first_seen.induct) auto

lemma distinct_first_seen: "distinct (map fe_id (first_seen xs))"
  by (induction xs rule: first_seen.induct) (auto simp: ids_first_seen)

lemma first_seen_snoc:
  "first_seen (xs @ [x]) =
     (if fe_id x \<in> fe_id ` set xs then first_seen xs else first_seen xs @ [x])"
  by (induction xs rule: first_seen.induct) auto

lemma subseq_first_seen: "subseq (first_seen xs) xs"
proof (induction xs rule: first_seen.induct)
  case 1
  then show ?case by simp
next
  case (2 x xs)
  have "subseq (filter (\<lambda>y. fe_id y \<noteq> fe_id x) xs) xs" by simp
  with "2.IH" have "subseq (first_seen (filter (\<lambda>y. fe_id y \<noteq> fe_id x) xs)) xs"
    by (rule subseq_order.trans)
  then show ?case by simp
qed

lemma first_seen_first:
  "x \<in> set (first_seen xs) \<Longrightarrow> find (\<lambda>y. fe_id y = fe_id x) xs = Some x"
proof (induction xs rule: first_seen.induct)
  case 1
  then show ?case by simp
next
  case (2 a xs)
  show ?case
  proof (cases "x = a")
    case True
    then show ?thesis by simp
  next
    case False
    with "2.prems" have m: "x \<in> set (first_seen (filter (\<lambda>y. fe_id y \<noteq> fe_id a) xs))" by simp
    then have "fe_id x \<in> fe_id ` set (filter (\<lambda>y. fe_id y \<noteq> fe_id a) xs)"
      using ids_first_seen by blast
    then have ne: "fe_id a \<noteq> fe_id x" by auto
    have f: "find (\<lambda>y. fe_id y = fe_id x) (filter (\<lambda>y. fe_id y \<noteq> fe_id a) xs) = Some x"
      using "2.IH"[OF m] .
    have "find (\<lambda>y. fe_id y = fe_id x) (filter (\<lambda>y. fe_id y \<noteq> fe_id a) zs) =
          find (\<lambda>y. fe_id y = fe_id x) zs" for zs
      using ne by (induction zs) auto
    from this[of xs] f have "find (\<lambda>y. fe_id y = fe_id x) xs = Some x" by simp
    with ne show ?thesis by simp
  qed
qed

lemma qualifying_append: "qualifying (xs @ ys) = qualifying xs @ qualifying ys"
  by (simp add: qualifying_def)

lemma ids_qualifying:
  "fe_id ` set (qualifying raw) =
     {i. \<exists>ev \<in> set raw. ev_id ev = Some i \<and> matches_pattern (summary_of ev)}"
  by (auto simp: qualifying_def split: option.splits if_splits) force

lemma add_events_spec:
  assumes "\<forall>ev \<in> set evs. matches_pattern (summary_of ev) \<longrightarrow> ev_id ev \<noteq> None"
  shows "add_events evs (first_seen (qualifying pre)) = (None, first_seen (qualifying (pre @ evs)))"
  using assms
proof (induction evs arbitrary: pre)
  case Nil
  then show ?case by simp
next
  case (Cons ev evs)
  have rest: "\<forall>ev \<in> set evs. matches_pattern (summary_of ev) \<longrightarrow> ev_id ev \<noteq> None"
    using Cons.prems by simp
  have step: "add_events evs (first_seen (qualifying (pre @ [ev]))) =
                (None, first_seen (qualifying ((pre @ [ev]) @ evs)))"
    by (rule Cons.IH[OF rest])
  show ?case
  proof (cases "matches_pattern (summary_of ev)")
    case False
    then have "qualifying (pre @ [ev]) = qualifying pre"
      by (simp add: qualifying_def split: option.splits)
    with step False show ?thesis by simp
  next
    case True
    with Cons.prems obtain i where i: "ev_id ev = Some i" by auto
    let ?x = "\<lparr>fe_id = i, fe_summary = summary_of ev, fe_start = start_of ev\<rparr>"
    have q: "qualifying (pre @ [ev]) = qualifying pre @ [?x]"
      using True i by (simp add: qualifying_def)
    have lx: "list_ex (\<lambda>f. fe_id f = i) ys \<longleftrightarrow> i \<in> fe_id ` set ys" for ys
      by (auto simp: list_ex_iff)
    have ex: "list_ex (\<lambda>f. fe_id f = i) (first_seen (qualifying pre)) \<longleftrightarrow>
              i \<in> fe_id ` set (qualifying pre)"
      unfolding lx ids_first_seen ..
    show ?thesis
      using step True i q ex by (simp add: first_seen_snoc split: if_splits)
  qed
qed

lemma list_pages_spec:
  assumes "pages_items n lst p tok = Some raw"
      and "\<forall>ev \<in> set raw. matches_pattern (summary_of ev) \<longrightarrow> ev_id ev \<noteq> None"
  shows "list_pages n lst p tok (first_seen (qualifying pre)) =
           Some (None, first_seen (qualifying (pre @ raw)))"
  using assms
proof (induction n arbitrary: tok raw pre)
  case 0
  then show ?case by simp
next
  case (Suc n)
  from Suc.prems(1) obtain r where r: "lst p tok = Inr r"
    by (auto split: sum.splits)
  show ?case
  proof (cases "truthy (nextPageToken r)")
    case False
    with Suc.prems r have raw: "raw = items r" by simp
    with Suc.prems(2) have "add_events (items r) (first_seen (qualifying pre)) =
        (None, first_seen (qualifying (pre @ items r)))"
      by (intro add_events_spec) simp
    with r False raw show ?thesis by simp
  next
    case True
    with Suc.prems(1) r obtain rest where
      rest: "pages_items n lst p (nextPageToken r) = Some rest" and raw: "raw = items r @ rest"
      by (auto split: option.splits)
    from Suc.prems(2) raw have a: "add_events (items r) (first_seen (qualifying pre)) =
        (None, first_seen (qualifying (pre @ items r)))"
      by (intro add_events_spec) simp
    from Suc.prems(2) raw
    have ok: "\<forall>ev \<in> set rest. matches_pattern (summary_of ev) \<longrightarrow> ev_id ev \<noteq> None" by simp
    from Suc.IH[OF rest ok, of "pre @ items r"] r True a raw show ?thesis by simp
  qed
qed

lemma search_patterns_spec:
  assumes "discovered n lst ps = Some raw"
      and "\<forall>ev \<in> set raw. matches_pattern (summary_of ev) \<longrightarrow> ev_id ev \<noteq> None"
  shows "search_patterns n lst ps (first_seen (qualifying pre)) =
           Some (None, first_seen (qualifying (pre @ raw)))"
  using assms
proof (induction ps arbitrary: raw pre)
  case Nil
  then show ?case by simp
next
  case (Cons p ps)
  from Cons.prems(1) obtain r1 r2 where
    r1: "pages_items n lst p None = Some r1" and r2: "discovered n lst ps = Some r2" and
    raw: "raw = r1 @ r2"
    by (auto split: option.splits)
  from Cons.prems(2) raw
  have ok1: "\<forall>ev \<in> set r1. matches_pattern (summary_of ev) \<longrightarrow> ev_id ev \<noteq> None"
   and ok2: "\<forall>ev \<in> set r2. matches_pattern (summary_of ev) \<longrightarrow> ev_id ev \<noteq> None"
    by simp_all
  from list_pages_spec[OF r1 ok1, of pre] Cons.IH[OF r2 ok2, of "pre @ r1"] raw
  show ?case by simp
qed

lemma add_events_prefix:
  "add_events evs found = (x, found') \<Longrightarrow> prefix found found'"
proof (induction evs arbitrary: found)
  case Nil
  then show ?case by simp
next
  case (Cons ev evs)
  have p: "prefix found (found @ [y])" for y by simp
  from Cons.prems show ?case
    by (auto split: if_splits option.splits
             dest!: Cons.IH intro: prefix_order.trans[OF p])
qed

lemma list_pages_prefix:
  "list_pages n lst p tok found = Some (x, found') \<Longrightarrow> prefix found found'"
proof (induction n arbitrary: tok found)
  case 0
  then show ?case by simp
next
  case (Suc n)
  show ?case
  proof (cases "lst p tok")
    case (Inl ex)
    with Suc.prems show ?thesis by simp
  next
    case (Inr r)
    obtain y f1 where a: "add_events (items r) found = (y, f1)"
      by (cases "add_events (items r) found")
    note p1 = add_events_prefix[OF a]
    show ?thesis
    proof (cases y)
      case (Some ex)
      with Suc.prems Inr a p1 show ?thesis by simp
    next
      case None
      show ?thesis
      proof (cases "truthy (nextPageToken r)")
        case False
        with Suc.prems Inr a None p1 show ?thesis by simp
      next
        case True
        with Suc.prems Inr a None
        have "list_pages n lst p (nextPageToken r) f1 = Some (x, found')" by simp
        from Suc.IH[OF this] p1 show ?thesis by (rule prefix_order.trans[rotated])
      qed
    qed
  qed
qed

lemma search_patterns_append:
  "search_patterns n lst (ps1 @ ps2) found =
     (case search_patterns n lst ps1 found of
        None \<Rightarrow> None
      | Some (Some ex, f) \<Rightarrow> Some (Some ex, f)
      | Some (None, f) \<Rightarrow> search_patterns n lst ps2 f)"
  by (induction ps1 arbitrary: found) (simp_all split: option.splits prod.splits)

subsection \<open>The page bound\<close>

text \<open>A search that ends within the bound gives the same result under any larger bound.\<close>

lemma list_pages_more_fuel:
  "list_pages n lst p tok found = Some r \<Longrightarrow> list_pages (n + k) lst p tok found = Some r"
proof (induction n arbitrary: tok found)
  case 0
  then show ?case by simp
next
  case (Suc n)
  then show ?case
    by (auto split: sum.splits prod.splits option.splits if_splits)
qed

lemma search_patterns_more_fuel:
  "search_patterns n lst ps found = Some r \<Longrightarrow> search_patterns (n + k) lst ps found = Some r"
proof (induction ps arbitrary: found)
  case Nil
  then show ?case by simp
next
  case (Cons p ps)
  from Cons.prems obtain r1 where 1: "list_pages n lst p None found = Some r1"
    by (auto split: option.splits)
  note 2 = list_pages_more_fuel[OF 1, of k]
  from Cons.prems 1 2 Cons.IH show ?case
    by (auto split: option.splits prod.splits)
qed

lemma find_perm_events_more_fuel:
  "find_perm_events n e svc = Some evs \<Longrightarrow> find_perm_events (n + k) e svc = Some evs"
  by (auto simp: find_perm_events_def split: option.splits prod.splits
           dest: search_patterns_more_fuel[where k = k])

subsection \<open>Prefix matching is exact\<close>

lemma matches_pattern_case_sensitive:
  "matches_pattern ''PWD Expiration: Acme''" "\<not> matches_pattern ''pwd expiration: Acme''"
  "\<not> matches_pattern '' PWD Expiration: Acme''"
  by (simp_all add: matches_pattern_def EVENT_PATTERNS_def)

subsection \<open>The concrete world, evaluated\<close>

lemma demo_initialize: "initialize (demo_env us) dry = (True, demo_self dry)"
  by (simp add: demo_defs code_defs)

lemma demo_decrypt:
  "decrypt_token (demo_env us) (demo_self dry) (Some (''enc-'' @ s)) = Inr (Some (''rt-'' @ s))"
  "decrypt_token (demo_env us) (demo_self dry) (Some ''garbled'') = Inr None"
  by (simp_all add: demo_defs code_defs)

lemma demo_needs_refresh:
  "needs_refresh (demo_env us) (Some ''2020-01-01T00:00:00Z'')"
  "needs_refresh (demo_env us) (Some ''not a date'')"
  "\<not> needs_refresh (demo_env us) (Some ''2099-01-01T00:00:00+00:00'')"
  by (simp_all add: demo_defs code_defs)

lemma demo_credentials:
  "get_google_credentials (demo_env us) (demo_self dry) alice =
     Inr (Some ((make_credentials (demo_env us) (demo_self dry) alice ''rt-alice'')\<lparr>token := Some ''fresh''\<rparr>))"
  "get_google_credentials (demo_env us) (demo_self dry) bob = Inr None"
  "get_google_credentials (demo_env us) (demo_self dry) carol = Inr None"
  "get_google_credentials (demo_env us) (demo_self dry) dave = Inl (OtherException ''connection reset'')"
  "get_google_credentials (demo_env us) (demo_self dry) erin =
     Inr (Some (make_credentials (demo_env us) (demo_self dry) erin ''rt-erin''))"
  by (simp_all add: demo_defs code_defs)

lemma demo_find_alice:
  "find_perm_events 2 (demo_env us) ''rt-alice'' =
     Some [\<lparr>fe_id = ''a'', fe_summary = ''PWD Expiration: Acme'', fe_start = Some ''2025-06-01''\<rparr>,
           \<lparr>fe_id = ''c'', fe_summary = ''ETA 9089 Filing: Initech'', fe_start = Some ''2025-06-01''\<rparr>]"
  by (simp add: demo_defs code_defs numeral_2_eq_2)

lemma demo_find_erin:
  "find_perm_events 2 (demo_env us) ''rt-erin'' =
     Some [\<lparr>fe_id = ''d'', fe_summary = ''PWD Expiration: Globex'', fe_start = Some ''2025-06-01''\<rparr>]"
  by (simp add: demo_defs code_defs numeral_2_eq_2)


lemma demo_sel:
  "events_delete (demo_env us) svc i =
     (if i = ''c'' then Some (OtherException ''HttpError 410'') else None)"
  "query_users (demo_env us) db = Inr (Some us)"
  "dry_run (demo_self dry) = dry"
  "supabase (demo_self dry) = Some ()"
  by (simp_all add: demo_env_def demo_self_def)

lemma demo_build:
  "get_calendar_service (demo_env us) c = Inr (refresh_token c)"
  by (simp add: demo_defs code_defs)

lemma demo_process_alice_live:
  "process_user 2 (demo_env us) (demo_self False) alice st =
     Some (Inr True,
           st\<lparr>total_events_found := total_events_found st + 2,
              total_events_deleted := total_events_deleted st + 1\<rparr>,
           [(''a'', True), (''c'', False)])"
  by (simp add: process_user_def demo_credentials demo_build make_credentials_def demo_find_alice
        delete_events_def demo_sel)

lemma demo_process_alice_dry:
  "process_user 2 (demo_env us) (demo_self True) alice st =
     Some (Inr True,
           st\<lparr>total_events_found := total_events_found st + 2,
              total_events_deleted := total_events_deleted st + 2\<rparr>,
           [])"
  by (simp add: process_user_def demo_credentials demo_build make_credentials_def demo_find_alice
        delete_events_def demo_sel)

lemma demo_process_erin_live:
  "process_user 2 (demo_env us) (demo_self False) erin st =
     Some (Inr True,
           st\<lparr>total_events_found := total_events_found st + 1,
              total_events_deleted := total_events_deleted st + 1\<rparr>,
           [(''d'', True)])"
  by (simp add: process_user_def demo_credentials demo_build make_credentials_def demo_find_erin
        delete_events_def demo_sel)

lemma demo_process_failures:
  "process_user 2 (demo_env us) (demo_self dry) bob st = Some (Inr False, st, [])"
  "process_user 2 (demo_env us) (demo_self dry) carol st = Some (Inr False, st, [])"
  "process_user 2 (demo_env us) (demo_self dry) dave st =
     Some (Inl (OtherException ''connection reset''), st, [])"
  by (simp_all add: process_user_def demo_credentials)

lemma demo_emails:
  "user_email alice = ''alice@example.com''" "user_email bob = ''bob@example.com''"
  "user_email carol = ''carol@example.com''" "user_email dave = ''dave@example.com''"
  "user_email erin = ''erin@example.com''"
  by (simp_all add: user_email_def demo_defs)

lemma demo_run_alice_dry:
  "run 2 (demo_env [alice]) True =
     Some (True,
           \<lparr>users_processed = 1, users_successful = 1, users_failed = 0,
              total_events_found = 2, total_events_deleted = 2, errors = []\<rparr>,
           [])"
  by (simp add: run_def demo_initialize run_user_def demo_process_alice_dry init_stats_def
        demo_sel)

lemma demo_run_alice_live:
  "run 2 (demo_env [alice]) False =
     Some (True,
           \<lparr>users_processed = 1, users_successful = 1, users_failed = 0,
              total_events_found = 2, total_events_deleted = 1, errors = []\<rparr>,
           [(''a'', True), (''c'', False)])"
  by (simp add: run_def demo_initialize run_user_def demo_process_alice_live init_stats_def
        demo_sel)

lemma demo_sel2:
  "now (demo_env us) tz = 1793786400"
  "events_list (demo_env us) = demo_list"
  "encryption_key (demo_self dry) = Some ''k3y''"
  by (simp_all add: demo_env_def demo_self_def)

lemma demo_run_users_alice:
  "run_users 2 (demo_env us) (demo_self False) [alice] (init_stats, []) =
     Some (\<lparr>users_processed = 1, users_successful = 1, users_failed = 0,
             total_events_found = 2, total_events_deleted = 1, errors = []\<rparr>,
           [(''a'', True), (''c'', False)])"
  by (simp add: run_user_def demo_process_alice_live init_stats_def)

lemma demo_sel3:
  "refresh (demo_env us) c =
     (if refresh_token c = ''rt-revoked'' then Inl (RefreshError ''invalid_grant'')
      else if refresh_token c = ''rt-neterr'' then Inl (OtherException ''connection reset'')
      else Inr (c\<lparr>token := Some ''fresh''\<rparr>))"
  "fromisoformat (demo_env us) (replace_Z ''2020-01-01T00:00:00Z'') =
     Inr \<lparr>dt_wall = 1577836800, dt_tzinfo = Some 0\<rparr>"
  by (simp_all add: demo_env_def replace_Z_def)

lemma demo_fields:
  "google_refresh_token alice = Some ''enc-alice''"
  "google_token_expiry alice = Some ''2020-01-01T00:00:00Z''"
  "google_refresh_token bob = Some ''garbled''"
  "google_refresh_token carol = Some ''enc-revoked''"
  "google_token_expiry carol = Some ''2020-01-01T00:00:00Z''"
  by (simp_all add: demo_defs)

lemma demo_run_users_bob:
  "run_users 2 (demo_env us) (demo_self dry) [bob] (init_stats, []) =
     Some (\<lparr>users_processed = 1, users_successful = 0, users_failed = 1,
             total_events_found = 0, total_events_deleted = 0,
             errors = [''User bob@example.com: credential/auth failure'']\<rparr>, [])"
  by (simp add: run_user_def demo_process_failures init_stats_def demo_emails)

lemma demo_run_users_erin:
  "run_users 2 (demo_env us) (demo_self False) [erin] (init_stats, []) =
     Some (\<lparr>users_processed = 1, users_successful = 1, users_failed = 0,
             total_events_found = 1, total_events_deleted = 1, errors = []\<rparr>,
           [(''d'', True)])"
  by (simp add: run_user_def demo_process_erin_live init_stats_def)

section \<open>Claims\<close>

text \<open>
  C1. When \<open>process_user\<close> raises for one user of the list, the loop of \<open>run\<close> catches the
  exception, counts the user as failed, appends \<open>User <email>: <error text>\<close> to the
  error list and goes on with the users after it: the run over the whole list is the run
  over the remaining users from that state, every user of the list is counted as
  processed, and the run returns whenever the processing of each remaining user does.
\<close>

theorem exception_isolated:
  assumes "run_users n e self us1 (st0, c0) = Some (st1, c1)"
      and "process_user n e self u (st1\<lparr>users_processed := users_processed st1 + 1\<rparr>) =
             Some (Inl ex, st2, cs)"
  shows "run_users n e self (us1 @ u # us2) (st0, c0) =
           run_users n e self us2
             (st1\<lparr>users_processed := users_processed st1 + 1,
                  users_failed := users_failed st1 + 1,
                  errors := errors st1 @ [''User '' @ user_email u @ '': '' @ str_exc ex]\<rparr>, c1) \<and>
         (\<forall>stF cF. run_users n e self (us1 @ u # us2) (st0, c0) = Some (stF, cF) \<longrightarrow>
            users_processed stF = users_processed st0 + length us1 + 1 + length us2) \<and>
         ((\<forall>u' \<in> set us2. \<forall>st. process_user n e self u' st \<noteq> None) \<longrightarrow>
            (\<exists>stF cF. run_users n e self (us1 @ u # us2) (st0, c0) = Some (stF, cF)))"
proof -
  from process_user_raises[OF assms(2)]
  have st2: "st2 = st1\<lparr>users_processed := users_processed st1 + 1\<rparr>" and cs: "cs = []"
    by simp_all
  have step: "run_user n e self u (st1, c1) =
      Some (st1\<lparr>users_processed := users_processed st1 + 1,
                users_failed := users_failed st1 + 1,
                errors := errors st1 @ [''User '' @ user_email u @ '': '' @ str_exc ex]\<rparr>, c1)"
    using assms(2) by (simp add: run_user_def st2 cs)
  have eq: "run_users n e self (us1 @ u # us2) (st0, c0) =
           run_users n e self us2
             (st1\<lparr>users_processed := users_processed st1 + 1,
                  users_failed := users_failed st1 + 1,
                  errors := errors st1 @ [''User '' @ user_email u @ '': '' @ str_exc ex]\<rparr>, c1)"
    by (simp add: run_users_append assms(1) step)
  have cnt: "users_processed stF = users_processed st0 + length us1 + 1 + length us2"
    if "run_users n e self (us1 @ u # us2) (st0, c0) = Some (stF, cF)" for stF cF
    using run_users_processed[OF that] by simp
  have tot: "\<exists>stF cF. run_users n e self (us1 @ u # us2) (st0, c0) = Some (stF, cF)"
    if "\<forall>u' \<in> set us2. \<forall>st. process_user n e self u' st \<noteq> None"
    using run_users_total[OF that] eq by (metis not_None_eq surj_pair)
  show ?thesis using eq cnt tot by blast
qed

text \<open>At alice, dave, erin: dave's refresh raises, erin is still processed.\<close>

theorem exception_isolated_witness:
  "run_users 2 (demo_env []) (demo_self False) [alice] (init_stats, []) =
     Some (\<lparr>users_processed = 1, users_successful = 1, users_failed = 0,
             total_events_found = 2, total_events_deleted = 1, errors = []\<rparr>,
           [(''a'', True), (''c'', False)]) \<and>
   process_user 2 (demo_env []) (demo_self False) dave
       \<lparr>users_processed = 2, users_successful = 1, users_failed = 0,
        total_events_found = 2, total_events_deleted = 1, errors = []\<rparr> =
     Some (Inl (OtherException ''connection reset''),
           \<lparr>users_processed = 2, users_successful = 1, users_failed = 0,
            total_events_found = 2, total_events_deleted = 1, errors = []\<rparr>, []) \<and>
   run_users 2 (demo_env []) (demo_self False) ([alice] @ dave # [erin]) (init_stats, []) =
     Some (\<lparr>users_processed = 3, users_successful = 2, users_failed = 1,
             total_events_found = 3, total_events_deleted = 2,
             errors = [''User dave@example.com: connection reset'']\<rparr>,
           [(''a'', True), (''c'', False), (''d'', True)])"
proof -
  let ?st1 = "\<lparr>users_processed = 1, users_successful = 1, users_failed = 0,
             total_events_found = 2, total_events_deleted = 1, errors = []\<rparr>"
  have h1: "run_users 2 (demo_env []) (demo_self False) [alice] (init_stats, []) =
     Some (?st1, [(''a'', True), (''c'', False)])"
    by (rule demo_run_users_alice)
  have h2: "process_user 2 (demo_env []) (demo_self False) dave
              (?st1\<lparr>users_processed := users_processed ?st1 + 1\<rparr>) =
            Some (Inl (OtherException ''connection reset''),
                  ?st1\<lparr>users_processed := users_processed ?st1 + 1\<rparr>, [])"
    by (rule demo_process_failures)
  note eq = exception_isolated[OF h1 h2, of "[erin]", THEN conjunct1]
  have c2: "process_user 2 (demo_env []) (demo_self False) dave
       \<lparr>users_processed = 2, users_successful = 1, users_failed = 0,
        total_events_found = 2, total_events_deleted = 1, errors = []\<rparr> =
     Some (Inl (OtherException ''connection reset''),
           \<lparr>users_processed = 2, users_successful = 1, users_failed = 0,
            total_events_found = 2, total_events_deleted = 1, errors = []\<rparr>, [])"
    by (rule demo_process_failures)
  have c3: "run_users 2 (demo_env []) (demo_self False) ([alice] @ dave # [erin]) (init_stats, []) =
     Some (\<lparr>users_processed = 3, users_successful = 2, users_failed = 1,
             total_events_found = 3, total_events_deleted = 2,
             errors = [''User dave@example.com: connection reset'']\<rparr>,
           [(''a'', True), (''c'', False), (''d'', True)])"
    by (subst eq) (simp add: run_user_def demo_process_erin_live demo_emails)
  from h1 c2 c3 show ?thesis by (intro conjI)
qed

text \<open>
  C2. On raw entries whose qualifying members carry an identity, the filtering and
  deduplication of \<open>find_perm_events\<close> computes \<open>filterAndDedupe\<close>, for one batch of
  entries and for everything the searches of all patterns and pages return. An identity
  is in the result iff some entry with that identity has a display text that starts with
  one of the patterns (\<open>prefix\<close> compares characters, so the match is exact and
  case-sensitive); no identity occurs twice; the result keeps the order of the
  qualifying entries; and the instance kept is the first one seen.
\<close>

theorem filter_and_dedupe:
  assumes "\<forall>ev \<in> set raw. matches_pattern (summary_of ev) \<longrightarrow> ev_id ev \<noteq> None"
  shows "add_events raw [] = (None, filterAndDedupe raw) \<and>
         (discovered n (events_list e svc) EVENT_PATTERNS = Some raw \<longrightarrow>
            find_perm_events n e svc = Some (filterAndDedupe raw)) \<and>
         (\<forall>i. i \<in> fe_id ` set (filterAndDedupe raw) \<longleftrightarrow>
              (\<exists>ev \<in> set raw. ev_id ev = Some i \<and>
                 (\<exists>p \<in> set EVENT_PATTERNS. prefix p (summary_of ev)))) \<and>
         distinct (map fe_id (filterAndDedupe raw)) \<and>
         subseq (filterAndDedupe raw) (qualifying raw) \<and>
         (\<forall>x \<in> set (filterAndDedupe raw). find (\<lambda>y. fe_id y = fe_id x) (qualifying raw) = Some x)"
proof -
  have a: "add_events raw [] = (None, filterAndDedupe raw)"
    using add_events_spec[OF assms, of "[]"] by (simp add: filterAndDedupe_def qualifying_def)
  have b: "find_perm_events n e svc = Some (filterAndDedupe raw)"
    if "discovered n (events_list e svc) EVENT_PATTERNS = Some raw"
    using search_patterns_spec[OF that assms, of "[]"]
    by (simp add: find_perm_events_def filterAndDedupe_def qualifying_def)
  have c: "i \<in> fe_id ` set (filterAndDedupe raw) \<longleftrightarrow>
              (\<exists>ev \<in> set raw. ev_id ev = Some i \<and>
                 (\<exists>p \<in> set EVENT_PATTERNS. prefix p (summary_of ev)))" for i
    unfolding filterAndDedupe_def ids_first_seen ids_qualifying
    by (simp add: matches_pattern_def list_ex_iff)
  show ?thesis
    using a b c distinct_first_seen subseq_first_seen first_seen_first
    unfolding filterAndDedupe_def by blast
qed

text \<open>At the scenario of the specification, and at everything alice's calendar returns.\<close>

theorem filter_and_dedupe_witness:
  "add_events [ev ''a'' ''PWD Expiration: Acme'', ev ''a'' ''PWD Expiration: Acme'',
               ev ''b'' ''Unrelated''] [] =
     (None, [\<lparr>fe_id = ''a'', fe_summary = ''PWD Expiration: Acme'',
              fe_start = Some ''2025-06-01''\<rparr>]) \<and>
   discovered 2 (events_list (demo_env []) ''rt-alice'') EVENT_PATTERNS =
     Some [ev ''a'' ''PWD Expiration: Acme'', ev ''a'' ''PWD Expiration: Acme'',
           ev ''b'' ''Unrelated'', ev ''c'' ''ETA 9089 Filing: Initech'',
           ev ''c'' ''ETA 9089 Filing: Initech''] \<and>
   find_perm_events 2 (demo_env []) ''rt-alice'' =
     Some [\<lparr>fe_id = ''a'', fe_summary = ''PWD Expiration: Acme'', fe_start = Some ''2025-06-01''\<rparr>,
           \<lparr>fe_id = ''c'', fe_summary = ''ETA 9089 Filing: Initech'',
            fe_start = Some ''2025-06-01''\<rparr>]"
proof -
  let ?raw0 = "[ev ''a'' ''PWD Expiration: Acme'', ev ''a'' ''PWD Expiration: Acme'',
               ev ''b'' ''Unrelated'']"
  let ?raw1 = "[ev ''a'' ''PWD Expiration: Acme'', ev ''a'' ''PWD Expiration: Acme'',
           ev ''b'' ''Unrelated'', ev ''c'' ''ETA 9089 Filing: Initech'',
           ev ''c'' ''ETA 9089 Filing: Initech'']"
  have ids0: "\<forall>ev \<in> set ?raw0. matches_pattern (summary_of ev) \<longrightarrow> ev_id ev \<noteq> None"
    by (simp add: ev_def)
  have ids1: "\<forall>ev \<in> set ?raw1. matches_pattern (summary_of ev) \<longrightarrow> ev_id ev \<noteq> None"
    by (simp add: ev_def)
  have d: "discovered 2 (events_list (demo_env []) ''rt-alice'') EVENT_PATTERNS = Some ?raw1"
    by (simp add: demo_sel2 demo_list_def EVENT_PATTERNS_def numeral_2_eq_2)
  have f0: "filterAndDedupe ?raw0 =
     [\<lparr>fe_id = ''a'', fe_summary = ''PWD Expiration: Acme'', fe_start = Some ''2025-06-01''\<rparr>]"
    by (simp add: filterAndDedupe_def qualifying_def ev_def matches_pattern_def summary_of_def
          start_of_def EVENT_PATTERNS_def)
  have f1: "filterAndDedupe ?raw1 =
     [\<lparr>fe_id = ''a'', fe_summary = ''PWD Expiration: Acme'', fe_start = Some ''2025-06-01''\<rparr>,
      \<lparr>fe_id = ''c'', fe_summary = ''ETA 9089 Filing: Initech'', fe_start = Some ''2025-06-01''\<rparr>]"
    by (simp add: filterAndDedupe_def qualifying_def ev_def matches_pattern_def summary_of_def
          start_of_def EVENT_PATTERNS_def)
  from filter_and_dedupe[OF ids0, of 2 "demo_env []" "''rt-alice''", THEN conjunct1]
  have a: "add_events ?raw0 [] = (None, filterAndDedupe ?raw0)" .
  from filter_and_dedupe[OF ids1, of 2 "demo_env []" "''rt-alice''", THEN conjunct2, THEN conjunct1,
         rule_format, OF d]
  have b: "find_perm_events 2 (demo_env []) ''rt-alice'' = Some (filterAndDedupe ?raw1)" .
  from a b d show ?thesis unfolding f0 f1 by simp
qed

text \<open>
  C3. \<open>decrypt_token\<close> never raises: its result is always a returned value. The value is
  \<open>None\<close> when the ciphertext or the key is absent, and when decryption raises.
\<close>

theorem decrypt_token_never_raises:
  "(\<exists>r. decrypt_token e self tok = Inr r) \<and>
   (tok = None \<or> encryption_key self = None \<longrightarrow> decrypt_token e self tok = Inr None) \<and>
   (\<forall>key t ex. encryption_key self = Some key \<and> tok = Some t \<and> fernet_decrypt e key t = Inl ex
        \<longrightarrow> decrypt_token e self tok = Inr None)"
  by (auto simp: decrypt_token_def try_except_def split: option.splits sum.splits)

text \<open>At a missing ciphertext and at a ciphertext Fernet rejects.\<close>

theorem decrypt_token_never_raises_witness:
  "decrypt_token (demo_env []) (demo_self False) None = Inr None \<and>
   fernet_decrypt (demo_env []) ''k3y'' ''garbled'' = Inl (OtherException ''InvalidToken'') \<and>
   decrypt_token (demo_env []) (demo_self False) (Some ''garbled'') = Inr None"
  using decrypt_token_never_raises[of "demo_env []" "demo_self False" None]
        decrypt_token_never_raises[of "demo_env []" "demo_self False" "Some ''garbled''"]
  by (simp add: demo_env_def demo_self_def)

text \<open>
  C4 as stated fails: with alice as the only user, whose second deletion request is
  refused, the dry run reports two events deleted and the live run one.
\<close>

theorem dry_run_live_counts_differ:
  "run 2 (demo_env [alice]) True =
     Some (True,
           \<lparr>users_processed = 1, users_successful = 1, users_failed = 0,
              total_events_found = 2, total_events_deleted = 2, errors = []\<rparr>,
           []) \<and>
   run 2 (demo_env [alice]) False =
     Some (True,
           \<lparr>users_processed = 1, users_successful = 1, users_failed = 0,
              total_events_found = 2, total_events_deleted = 1, errors = []\<rparr>,
           [(''a'', True), (''c'', False)])"
  using demo_run_alice_dry demo_run_alice_live by (rule conjI)

text \<open>
  C4, as the code has it. A dry run and a live run in the same world end together, and
  then return the same result with the same users processed, successful and failed, the
  same events found and the same error list. The dry run sends no deletion request and
  its deleted counter equals the events found. The live run sends one deletion request
  per event found and its deleted counter is the number of requests that succeeded; the
  two deleted counters agree iff no deletion request failed.
\<close>

theorem dry_run_parity:
  "(run n e True = None \<longleftrightarrow> run n e False = None) \<and>
   (\<forall>okd sd cd okl sl cl.
      run n e True = Some (okd, sd, cd) \<and> run n e False = Some (okl, sl, cl) \<longrightarrow>
      okd = okl \<and>
      users_processed sd = users_processed sl \<and>
      users_successful sd = users_successful sl \<and>
      users_failed sd = users_failed sl \<and>
      total_events_found sd = total_events_found sl \<and>
      errors sd = errors sl \<and>
      cd = [] \<and> total_events_deleted sd = total_events_found sd \<and>
      length cl = total_events_found sl \<and>
      total_events_deleted sl = length (filter snd cl) \<and>
      (total_events_deleted sl = total_events_deleted sd \<longleftrightarrow> (\<forall>c \<in> set cl. snd c)))"
proof -
  from run_cases[of n e] show ?thesis
  proof (elim disjE exE conjE)
    fix b
    assume "run n e True = Some (b, init_stats, [])" "run n e False = Some (b, init_stats, [])"
    then show ?thesis by (simp add: init_stats_def)
  next
    fix self users
    assume rT: "run n e True =
        (case run_users n e (self\<lparr>dry_run := True\<rparr>) users (init_stats, []) of
           None \<Rightarrow> None | Some (st, calls) \<Rightarrow> Some (users_failed st = 0, st, calls))"
      and rF: "run n e False =
        (case run_users n e (self\<lparr>dry_run := False\<rparr>) users (init_stats, []) of
           None \<Rightarrow> None | Some (st, calls) \<Rightarrow> Some (users_failed st = 0, st, calls))"
    have n: "run n e True = None \<longleftrightarrow> run n e False = None"
      using run_users_parity_none[of n e self users init_stats "[]" init_stats "[]"] rT rF
      by (auto split: option.splits)
    have s: "okd = okl \<and>
        users_processed sd = users_processed sl \<and>
        users_successful sd = users_successful sl \<and>
        users_failed sd = users_failed sl \<and>
        total_events_found sd = total_events_found sl \<and>
        errors sd = errors sl \<and>
        cd = [] \<and> total_events_deleted sd = total_events_found sd \<and>
        length cl = total_events_found sl \<and>
        total_events_deleted sl = length (filter snd cl) \<and>
        (total_events_deleted sl = total_events_deleted sd \<longleftrightarrow> (\<forall>c \<in> set cl. snd c))"
      if d: "run n e True = Some (okd, sd, cd)" and v: "run n e False = Some (okl, sl, cl)"
      for okd sd cd okl sl cl
    proof -
      from d rT have d1: "run_users n e (self\<lparr>dry_run := True\<rparr>) users (init_stats, []) = Some (sd, cd)"
        and okd: "okd = (users_failed sd = 0)"
        by (auto split: option.splits)
      from v rF have v1: "run_users n e (self\<lparr>dry_run := False\<rparr>) users (init_stats, []) = Some (sl, cl)"
        and okl: "okl = (users_failed sl = 0)"
        by (auto split: option.splits)
      note par = run_users_parity[OF refl refl refl refl refl d1 v1]
      have z: "total_events_found init_stats = 0" "total_events_deleted init_stats = 0"
        by (simp_all add: init_stats_def)
      from par have
        r: "users_processed sd = users_processed sl" "users_successful sd = users_successful sl"
           "users_failed sd = users_failed sl" "total_events_found sd = total_events_found sl"
           "errors sd = errors sl" "cd = []"
        by simp_all
      from par obtain new where "cl = [] @ new"
           "total_events_found sd = total_events_found init_stats + length new"
           "total_events_deleted sd = total_events_deleted init_stats + length new"
           "total_events_deleted sl = total_events_deleted init_stats + length (filter snd new)"
        by (elim exE conjE)
      then have c: "total_events_found sd = length cl" "total_events_deleted sd = length cl"
           "total_events_deleted sl = length (filter snd cl)"
        unfolding z by simp_all
      have "total_events_deleted sl = total_events_deleted sd \<longleftrightarrow> (\<forall>c \<in> set cl. snd c)"
        unfolding c by (rule length_filter_eq_all)
      with r c okd okl show ?thesis by simp
    qed
    from n s show ?thesis by blast
  qed
qed

text \<open>At the same run, where one of the two deletion requests fails.\<close>

theorem dry_run_parity_witness:
  "run 2 (demo_env [alice]) True =
     Some (True,
           \<lparr>users_processed = 1, users_successful = 1, users_failed = 0,
              total_events_found = 2, total_events_deleted = 2, errors = []\<rparr>,
           []) \<and>
   run 2 (demo_env [alice]) False =
     Some (True,
           \<lparr>users_processed = 1, users_successful = 1, users_failed = 0,
              total_events_found = 2, total_events_deleted = 1, errors = []\<rparr>,
           [(''a'', True), (''c'', False)]) \<and>
   length [(''a'', True), (''c'', False)] = (2::nat) \<and>
   length (filter snd [(''a'', True), (''c'', False)]) = (1::nat)"
proof -
  note d = demo_run_alice_dry and l = demo_run_alice_live
  from dry_run_parity[of 2 "demo_env [alice]", THEN conjunct2, rule_format, OF conjI[OF d l]]
  have "length [(''a'', True), (''c'', False)] = (2::nat) \<and>
        length (filter snd [(''a'', True), (''c'', False)]) = (1::nat)"
    by simp
  with d l show ?thesis by simp
qed

text \<open>
  C5 as stated fails: on erin's calendar listing raises for the second pattern, and the
  entry the third pattern's search would return is not in the result, while discovery as
  the specification words it returns it.
\<close>

theorem listing_error_skips_later_patterns:
  "find_perm_events 2 (demo_env []) ''rt-erin'' =
     Some [\<lparr>fe_id = ''d'', fe_summary = ''PWD Expiration: Globex'', fe_start = Some ''2025-06-01''\<rparr>] \<and>
   find_perm_events_per_pattern 2 (demo_env []) ''rt-erin'' =
     Some [\<lparr>fe_id = ''d'', fe_summary = ''PWD Expiration: Globex'', fe_start = Some ''2025-06-01''\<rparr>,
           \<lparr>fe_id = ''e'', fe_summary = ''ETA 9089 Expiration: Globex'', fe_start = Some ''2025-06-01''\<rparr>]"
  by (simp add: demo_defs code_defs find_perm_events_per_pattern_def numeral_2_eq_2)

text \<open>
  C5, as the code has it. The \<open>try\<close> of \<open>find_perm_events\<close> encloses the loop over the
  patterns. When listing for a pattern raises, after the patterns before it were searched
  without error, the search ends there whatever patterns follow: \<open>find_perm_events\<close>
  returns the entries collected up to the error, which extend the entries of the earlier
  patterns. The user is not aborted: \<open>process_user\<close> returns \<open>True\<close>, adds the number of
  these entries to \<open>total_events_found\<close>, hands exactly these entries to \<open>delete_events\<close>
  and records its count and its deletion requests.
\<close>

theorem discovery_error_stops_search:
  assumes "search_patterns n (events_list e svc) ps1 [] = Some (None, found1)"
      and "list_pages n (events_list e svc) p None found1 = Some (Some ex, found2)"
  shows "(\<forall>ps. search_patterns n (events_list e svc) (ps1 @ p # ps) [] = Some (Some ex, found2)) \<and>
         prefix found1 found2 \<and>
         (EVENT_PATTERNS = ps1 @ p # ps2 \<longrightarrow>
            find_perm_events n e svc = Some found2 \<and>
            (\<forall>self u creds st.
               get_google_credentials e self u = Inr (Some creds) \<and>
               get_calendar_service e creds = Inr svc \<longrightarrow>
               process_user n e self u st =
                 Some (Inr True,
                       st\<lparr>total_events_found := total_events_found st + length found2,
                          total_events_deleted :=
                            total_events_deleted st + fst (delete_events e self svc found2)\<rparr>,
                       snd (delete_events e self svc found2))))"
proof -
  have s: "search_patterns n (events_list e svc) (ps1 @ p # ps) [] = Some (Some ex, found2)" for ps
    using assms by (simp add: search_patterns_append)
  have f: "find_perm_events n e svc = Some found2" if "EVENT_PATTERNS = ps1 @ p # ps2"
    using s[of ps2] that by (simp add: find_perm_events_def)
  have d0: "delete_events e self svc [] = (0, [])" for self
    by (simp add: delete_events_def)
  have u: "process_user n e self u st =
                 Some (Inr True,
                       st\<lparr>total_events_found := total_events_found st + length found2,
                          total_events_deleted :=
                            total_events_deleted st + fst (delete_events e self svc found2)\<rparr>,
                       snd (delete_events e self svc found2))"
    if "EVENT_PATTERNS = ps1 @ p # ps2" "get_google_credentials e self u = Inr (Some creds)"
       "get_calendar_service e creds = Inr svc" for self u creds st
    using f[OF that(1)] that(2,3)
    by (cases "found2 = []") (simp_all add: process_user_def Let_def d0 split: prod.splits)
  show ?thesis
    using s f u list_pages_prefix[OF assms(2)] by blast
qed

text \<open>
  At erin's calendar: the first pattern is searched, the second raises; the entry found
  is deleted in a live run and counted in a dry run.
\<close>

theorem discovery_error_stops_search_witness:
  "search_patterns 2 (events_list (demo_env []) ''rt-erin'') [''PWD Expiration:''] [] =
     Some (None, [\<lparr>fe_id = ''d'', fe_summary = ''PWD Expiration: Globex'',
                   fe_start = Some ''2025-06-01''\<rparr>]) \<and>
   list_pages 2 (events_list (demo_env []) ''rt-erin'') ''ETA 9089 Filing:'' None
       [\<lparr>fe_id = ''d'', fe_summary = ''PWD Expiration: Globex'', fe_start = Some ''2025-06-01''\<rparr>] =
     Some (Some (OtherException ''HttpError 503''),
           [\<lparr>fe_id = ''d'', fe_summary = ''PWD Expiration: Globex'',
             fe_start = Some ''2025-06-01''\<rparr>]) \<and>
   EVENT_PATTERNS = [''PWD Expiration:''] @ ''ETA 9089 Filing:'' #
     [''ETA 9089 Expiration:'', ''Ready to File:'', ''Recruitment Expires:'',
      ''I-140 Deadline:'', ''RFI Response Due:'', ''RFE Response Due:''] \<and>
   find_perm_events 2 (demo_env []) ''rt-erin'' =
     Some [\<lparr>fe_id = ''d'', fe_summary = ''PWD Expiration: Globex'', fe_start = Some ''2025-06-01''\<rparr>] \<and>
   process_user 2 (demo_env []) (demo_self False) erin init_stats =
     Some (Inr True,
           \<lparr>users_processed = 0, users_successful = 0, users_failed = 0,
            total_events_found = 1, total_events_deleted = 1, errors = []\<rparr>,
           [(''d'', True)]) \<and>
   process_user 2 (demo_env []) (demo_self True) erin init_stats =
     Some (Inr True,
           \<lparr>users_processed = 0, users_successful = 0, users_failed = 0,
            total_events_found = 1, total_events_deleted = 1, errors = []\<rparr>,
           [])"
proof -
  let ?d = "\<lparr>fe_id = ''d'', fe_summary = ''PWD Expiration: Globex'', fe_start = Some ''2025-06-01''\<rparr>"
  let ?rest = "[''ETA 9089 Expiration:'', ''Ready to File:'', ''Recruitment Expires:'',
      ''I-140 Deadline:'', ''RFI Response Due:'', ''RFE Response Due:'']"
  have h1: "search_patterns 2 (events_list (demo_env []) ''rt-erin'') [''PWD Expiration:''] [] =
     Some (None, [?d])"
    by (simp add: demo_sel2 demo_list_def ev_def matches_pattern_def summary_of_def start_of_def
          EVENT_PATTERNS_def numeral_2_eq_2)
  have h2: "list_pages 2 (events_list (demo_env []) ''rt-erin'') ''ETA 9089 Filing:'' None [?d] =
     Some (Some (OtherException ''HttpError 503''), [?d])"
    by (simp add: demo_sel2 demo_list_def numeral_2_eq_2)
  have h3: "EVENT_PATTERNS = [''PWD Expiration:''] @ ''ETA 9089 Filing:'' # ?rest"
    by (simp add: EVENT_PATTERNS_def)
  have h4: "get_google_credentials (demo_env []) (demo_self dry) erin =
              Inr (Some (make_credentials (demo_env []) (demo_self dry) erin ''rt-erin'')) \<and>
            get_calendar_service (demo_env [])
              (make_credentials (demo_env []) (demo_self dry) erin ''rt-erin'') = Inr ''rt-erin''"
    for dry
    by (simp add: demo_credentials demo_build make_credentials_def)
  have del: "delete_events (demo_env []) (demo_self False) ''rt-erin'' [?d] = (1, [(''d'', True)])"
            "delete_events (demo_env []) (demo_self True) ''rt-erin'' [?d] = (1, [])"
    by (simp_all add: delete_events_def demo_sel)
  note t = discovery_error_stops_search[OF h1 h2, of ?rest, THEN conjunct2, THEN conjunct2,
             rule_format, OF h3]
  from t[THEN conjunct1]
  have f: "find_perm_events 2 (demo_env []) ''rt-erin'' = Some [?d]" .
  from t[THEN conjunct2, rule_format, OF h4, of False init_stats]
  have p: "process_user 2 (demo_env []) (demo_self False) erin init_stats =
     Some (Inr True,
           \<lparr>users_processed = 0, users_successful = 0, users_failed = 0,
            total_events_found = 1, total_events_deleted = 1, errors = []\<rparr>,
           [(''d'', True)])"
    by (simp add: del init_stats_def)
  from t[THEN conjunct2, rule_format, OF h4, of True init_stats]
  have q: "process_user 2 (demo_env []) (demo_self True) erin init_stats =
     Some (Inr True,
           \<lparr>users_processed = 0, users_successful = 0, users_failed = 0,
            total_events_found = 1, total_events_deleted = 1, errors = []\<rparr>,
           [])"
    by (simp add: del init_stats_def)
  from h1 h2 h3 f p q show ?thesis by (intro conjI)
qed

text \<open>
  C6. \<open>needs_refresh\<close> holds iff no expiry is recorded (\<open>None\<close> or the empty string), or
  the expiry does not parse, or the clock is at or after the expiry. For a user whose
  secret decrypts and whose expiry lies in the past, \<open>get_google_credentials\<close> calls
  \<open>refresh\<close> and what it returns is the outcome of that call: the refreshed credentials,
  \<open>None\<close> after a \<open>RefreshError\<close>, or the exception raised.
\<close>

theorem needs_refresh_iff:
  "(needs_refresh e exp \<longleftrightarrow>
      (exp = None \<or> exp = Some [] \<or>
       (\<exists>s ex. exp = Some s \<and> fromisoformat e (replace_Z s) = Inl ex) \<or>
       (\<exists>s dt. exp = Some s \<and> fromisoformat e (replace_Z s) = Inr dt \<and>
              dt_wall dt \<le> now e (dt_tzinfo dt))))
   \<and>
   (\<forall>rt s dt. decrypt_token e self (google_refresh_token u) = Inr (Some rt) \<and> rt \<noteq> [] \<and>
       google_token_expiry u = Some s \<and> fromisoformat e (replace_Z s) = Inr dt \<and>
       dt_wall dt < now e (dt_tzinfo dt) \<longrightarrow>
       get_google_credentials e self u =
         (case refresh e (make_credentials e self u rt) of
            Inr creds' \<Rightarrow> Inr (Some creds')
          | Inl (RefreshError m) \<Rightarrow> Inr None
          | Inl ex \<Rightarrow> Inl ex))"
proof (intro conjI allI impI)
  show "needs_refresh e exp \<longleftrightarrow>
      (exp = None \<or> exp = Some [] \<or>
       (\<exists>s ex. exp = Some s \<and> fromisoformat e (replace_Z s) = Inl ex) \<or>
       (\<exists>s dt. exp = Some s \<and> fromisoformat e (replace_Z s) = Inr dt \<and>
              dt_wall dt \<le> now e (dt_tzinfo dt)))"
    by (cases exp) (auto simp: needs_refresh_def split: sum.splits)
next
  fix rt s dt
  assume a: "decrypt_token e self (google_refresh_token u) = Inr (Some rt) \<and> rt \<noteq> [] \<and>
       google_token_expiry u = Some s \<and> fromisoformat e (replace_Z s) = Inr dt \<and>
       dt_wall dt < now e (dt_tzinfo dt)"
  then have "needs_refresh e (google_token_expiry u)"
    by (auto simp: needs_refresh_def)
  with a show "get_google_credentials e self u =
         (case refresh e (make_credentials e self u rt) of
            Inr creds' \<Rightarrow> Inr (Some creds')
          | Inl (RefreshError m) \<Rightarrow> Inr None
          | Inl ex \<Rightarrow> Inl ex)"
    by (simp add: get_google_credentials_def Let_def)
qed

text \<open>At alice, whose expiry lies in 2020.\<close>

theorem needs_refresh_iff_witness:
  "fromisoformat (demo_env []) (replace_Z ''2020-01-01T00:00:00Z'') =
     Inr \<lparr>dt_wall = 1577836800, dt_tzinfo = Some 0\<rparr> \<and>
   dt_wall \<lparr>dt_wall = 1577836800, dt_tzinfo = Some 0\<rparr> < now (demo_env []) (Some 0) \<and>
   needs_refresh (demo_env []) (Some ''2020-01-01T00:00:00Z'') \<and>
   decrypt_token (demo_env []) (demo_self False) (google_refresh_token alice) =
     Inr (Some ''rt-alice'') \<and>
   get_google_credentials (demo_env []) (demo_self False) alice =
     Inr (Some ((make_credentials (demo_env []) (demo_self False) alice ''rt-alice'')
                  \<lparr>token := Some ''fresh''\<rparr>))"
proof -
  let ?e = "demo_env [] :: (unit, string) env"
  let ?dt = "\<lparr>dt_wall = 1577836800, dt_tzinfo = Some 0\<rparr>"
  note t = needs_refresh_iff[of ?e "Some ''2020-01-01T00:00:00Z''" "demo_self False" alice]
  have p: "fromisoformat ?e (replace_Z ''2020-01-01T00:00:00Z'') = Inr ?dt"
    by (rule demo_sel3)
  have c: "dt_wall ?dt < now ?e (Some 0)"
    by (simp add: demo_sel2)
  have k: "decrypt_token ?e (demo_self False) (google_refresh_token alice) = Inr (Some ''rt-alice'')"
    using demo_decrypt(1)[of "[]" False "''alice''"] by (simp add: demo_fields)
  have n: "needs_refresh ?e (Some ''2020-01-01T00:00:00Z'')"
    using t[THEN conjunct1] p c by simp
  have h: "decrypt_token ?e (demo_self False) (google_refresh_token alice) = Inr (Some ''rt-alice'') \<and>
           ''rt-alice'' \<noteq> [] \<and>
           google_token_expiry alice = Some ''2020-01-01T00:00:00Z'' \<and>
           fromisoformat ?e (replace_Z ''2020-01-01T00:00:00Z'') = Inr ?dt \<and>
           dt_wall ?dt < now ?e (dt_tzinfo ?dt)"
    using k p c by (simp add: demo_fields)
  from t[THEN conjunct2, rule_format, OF h]
  have g: "get_google_credentials ?e (demo_self False) alice =
     Inr (Some ((make_credentials ?e (demo_self False) alice ''rt-alice'')\<lparr>token := Some ''fresh''\<rparr>))"
    by (simp add: demo_sel3 make_credentials_def)
  from p c n k g show ?thesis by (intro conjI)
qed

text \<open>
  C7. A run that reaches the loop over the users and completes returns \<open>True\<close> iff
  \<open>users_failed\<close> is zero. The exit status of a completed run is 0 or 1, and it is 0 iff
  \<open>users_failed\<close> is zero, \<open>initialize\<close> succeeded with a client and the query returned.
\<close>

theorem run_result_and_exit_status:
  "(\<forall>self db users st calls.
      initialize e dry = (True, self) \<and> supabase self = Some db \<and>
      query_users e db = Inr (Some users) \<and> users \<noteq> [] \<and>
      run_users n e self users (init_stats, []) = Some (st, calls) \<longrightarrow>
      run n e dry = Some (users_failed st = 0, st, calls)) \<and>
   (\<forall>ok st calls. run n e dry = Some (ok, st, calls) \<longrightarrow>
      (main n e dry = Some 0 \<or> main n e dry = Some 1) \<and>
      (main n e dry = Some 0 \<longleftrightarrow>
         users_failed st = 0 \<and>
         (\<exists>self db data. initialize e dry = (True, self) \<and> supabase self = Some db \<and>
                         query_users e db = Inr data)))"
proof (intro conjI allI impI)
  fix self db users st calls
  assume "initialize e dry = (True, self) \<and> supabase self = Some db \<and>
      query_users e db = Inr (Some users) \<and> users \<noteq> [] \<and>
      run_users n e self users (init_stats, []) = Some (st, calls)"
  then show "run n e dry = Some (users_failed st = 0, st, calls)"
    by (simp add: run_def)
next
  fix ok st calls
  assume r: "run n e dry = Some (ok, st, calls)"
  then show "main n e dry = Some 0 \<or> main n e dry = Some 1"
    by (simp add: main_def)
  obtain b self where i: "initialize e dry = (b, self)" by (cases "initialize e dry")
  show "main n e dry = Some 0 \<longleftrightarrow>
         users_failed st = 0 \<and>
         (\<exists>self db data. initialize e dry = (True, self) \<and> supabase self = Some db \<and>
                         query_users e db = Inr data)"
    using r i
    by (auto simp: main_def run_def Let_def init_stats_def split: bool.splits option.splits sum.splits if_splits)
qed

text \<open>At a run with one failing user and a run with one successful user.\<close>

theorem run_result_and_exit_status_witness:
  "initialize (demo_env [bob]) False = (True, demo_self False) \<and>
   query_users (demo_env [bob]) () = Inr (Some [bob]) \<and>
   run_users 2 (demo_env [bob]) (demo_self False) [bob] (init_stats, []) =
     Some (\<lparr>users_processed = 1, users_successful = 0, users_failed = 1,
             total_events_found = 0, total_events_deleted = 0,
             errors = [''User bob@example.com: credential/auth failure'']\<rparr>, []) \<and>
   run 2 (demo_env [bob]) False =
     Some (False,
           \<lparr>users_processed = 1, users_successful = 0, users_failed = 1,
             total_events_found = 0, total_events_deleted = 0,
             errors = [''User bob@example.com: credential/auth failure'']\<rparr>, []) \<and>
   main 2 (demo_env [bob]) False = Some 1 \<and>
   run 2 (demo_env [erin]) False =
     Some (True,
           \<lparr>users_processed = 1, users_successful = 1, users_failed = 0,
             total_events_found = 1, total_events_deleted = 1, errors = []\<rparr>,
           [(''d'', True)]) \<and>
   main 2 (demo_env [erin]) False = Some 0"
proof -
  let ?sb = "\<lparr>users_processed = 1, users_successful = 0, users_failed = 1,
             total_events_found = 0, total_events_deleted = 0,
             errors = [''User bob@example.com: credential/auth failure'']\<rparr>"
  let ?se = "\<lparr>users_processed = 1, users_successful = 1, users_failed = 0,
             total_events_found = 1, total_events_deleted = 1, errors = []\<rparr>"
  have i: "initialize (demo_env us) False = (True, demo_self False)" for us
    by (rule demo_initialize)
  have q: "query_users (demo_env us) () = Inr (Some us)" for us
    by (rule demo_sel)
  have s: "supabase (demo_self False) = Some ()"
    by (rule demo_sel)
  have ub: "run_users 2 (demo_env [bob]) (demo_self False) [bob] (init_stats, []) = Some (?sb, [])"
    by (rule demo_run_users_bob)
  have ue: "run_users 2 (demo_env [erin]) (demo_self False) [erin] (init_stats, []) =
              Some (?se, [(''d'', True)])"
    by (rule demo_run_users_erin)
  have hb: "initialize (demo_env [bob]) False = (True, demo_self False) \<and>
            supabase (demo_self False) = Some () \<and>
            query_users (demo_env [bob]) () = Inr (Some [bob]) \<and> [bob] \<noteq> [] \<and>
            run_users 2 (demo_env [bob]) (demo_self False) [bob] (init_stats, []) = Some (?sb, [])"
    using i q s ub by simp
  have he: "initialize (demo_env [erin]) False = (True, demo_self False) \<and>
            supabase (demo_self False) = Some () \<and>
            query_users (demo_env [erin]) () = Inr (Some [erin]) \<and> [erin] \<noteq> [] \<and>
            run_users 2 (demo_env [erin]) (demo_self False) [erin] (init_stats, []) =
              Some (?se, [(''d'', True)])"
    using i q s ue by simp
  from run_result_and_exit_status[of "demo_env [bob]" False 2, THEN conjunct1, rule_format, OF hb]
  have rb: "run 2 (demo_env [bob]) False = Some (False, ?sb, [])" by simp
  from run_result_and_exit_status[of "demo_env [erin]" False 2, THEN conjunct1, rule_format, OF he]
  have re: "run 2 (demo_env [erin]) False = Some (True, ?se, [(''d'', True)])" by simp
  from run_result_and_exit_status[of "demo_env [bob]" False 2, THEN conjunct2, rule_format, OF rb]
  have mb: "main 2 (demo_env [bob]) False = Some 1" by auto
  from run_result_and_exit_status[of "demo_env [erin]" False 2, THEN conjunct2, rule_format, OF re]
  have me: "main 2 (demo_env [erin]) False = Some 0"
    using i[of "[erin]"] q[of "[erin]"] s by simp
  from i[of "[bob]"] q[of "[bob]"] ub rb mb re me show ?thesis by (intro conjI)
qed

text \<open>
  C8 as stated fails: dave's token needs a refresh and the refresh fails with a connection
  error, which is not a \<open>RefreshError\<close>. \<open>get_google_credentials\<close> does not return
  \<open>None\<close>, it raises, and the error entry of the run is the exception text, while bob,
  whose secret does not decrypt, gets \<open>None\<close> and the \<open>credential/auth failure\<close> entry.
\<close>

theorem transport_error_leaves_credential_resolution:
  "decrypt_token (demo_env []) (demo_self False) (google_refresh_token dave) =
     Inr (Some ''rt-neterr'') \<and>
   needs_refresh (demo_env []) (google_token_expiry dave) \<and>
   refresh (demo_env []) (make_credentials (demo_env []) (demo_self False) dave ''rt-neterr'') =
     Inl (OtherException ''connection reset'') \<and>
   get_google_credentials (demo_env []) (demo_self False) dave =
     Inl (OtherException ''connection reset'') \<and>
   run_user 2 (demo_env []) (demo_self False) dave (init_stats, []) =
     Some (\<lparr>users_processed = 1, users_successful = 0, users_failed = 1,
            total_events_found = 0, total_events_deleted = 0,
            errors = [''User dave@example.com: connection reset'']\<rparr>, []) \<and>
   decrypt_token (demo_env []) (demo_self False) (google_refresh_token bob) = Inr None \<and>
   get_google_credentials (demo_env []) (demo_self False) bob = Inr None \<and>
   run_user 2 (demo_env []) (demo_self False) bob (init_stats, []) =
     Some (\<lparr>users_processed = 1, users_successful = 0, users_failed = 1,
            total_events_found = 0, total_events_deleted = 0,
            errors = [''User bob@example.com: credential/auth failure'']\<rparr>, [])"
proof -
  let ?e = "demo_env [] :: (unit, string) env"
  have 1: "decrypt_token ?e (demo_self False) (google_refresh_token dave) = Inr (Some ''rt-neterr'')"
    using demo_decrypt(1)[of "[]" False "''neterr''"] by (simp add: dave_def demo_user_def)
  have 2: "needs_refresh ?e (google_token_expiry dave)"
    by (simp add: dave_def demo_user_def demo_needs_refresh)
  have 3: "refresh ?e (make_credentials ?e (demo_self False) dave ''rt-neterr'') =
             Inl (OtherException ''connection reset'')"
    by (simp add: demo_sel3 make_credentials_def)
  have 4: "get_google_credentials ?e (demo_self False) dave = Inl (OtherException ''connection reset'')"
    by (rule demo_credentials)
  have 5: "run_user 2 ?e (demo_self False) dave (init_stats, []) =
     Some (\<lparr>users_processed = 1, users_successful = 0, users_failed = 1,
            total_events_found = 0, total_events_deleted = 0,
            errors = [''User dave@example.com: connection reset'']\<rparr>, [])"
    by (simp add: run_user_def demo_process_failures demo_emails init_stats_def)
  have 6: "decrypt_token ?e (demo_self False) (google_refresh_token bob) = Inr None"
    by (simp add: demo_fields demo_decrypt)
  have 7: "get_google_credentials ?e (demo_self False) bob = Inr None"
    by (rule demo_credentials)
  have 8: "run_user 2 ?e (demo_self False) bob (init_stats, []) =
     Some (\<lparr>users_processed = 1, users_successful = 0, users_failed = 1,
            total_events_found = 0, total_events_deleted = 0,
            errors = [''User bob@example.com: credential/auth failure'']\<rparr>, [])"
    by (simp add: run_user_def demo_process_failures demo_emails init_stats_def)
  from 1 2 3 4 5 6 7 8 show ?thesis by (intro conjI)
qed

text \<open>
  C8, as the code has it. Let the token need a refresh and \<open>refresh\<close> raise. When the
  exception is a \<open>RefreshError\<close>, \<open>get_google_credentials\<close> returns \<open>None\<close>,
  \<open>process_user\<close> returns \<open>False\<close> without touching the statistics, and the loop counts
  the user as failed with the \<open>credential/auth failure\<close> entry; a user whose secret does
  not decrypt gets the same three results. When it is any other exception,
  \<open>get_google_credentials\<close> and \<open>process_user\<close> raise it and the loop counts the user as
  failed with the exception text as the entry. In both cases the user is counted as
  processed and failed once, and the run goes on with the next user.
\<close>

theorem refresh_failure_skips_user:
  assumes "decrypt_token e self (google_refresh_token u) = Inr (Some rt)" and "rt \<noteq> []"
      and "needs_refresh e (google_token_expiry u)"
      and "refresh e (make_credentials e self u rt) = Inl ex"
  shows "(\<forall>m. ex = RefreshError m \<longrightarrow>
            get_google_credentials e self u = Inr None \<and>
            process_user n e self u st = Some (Inr False, st, []) \<and>
            run_user n e self u (st, calls) =
              Some (st\<lparr>users_processed := users_processed st + 1,
                       users_failed := users_failed st + 1,
                       errors := errors st @
                         [''User '' @ user_email u @ '': credential/auth failure'']\<rparr>,
                    calls) \<and>
            (\<forall>u'. decrypt_token e self (google_refresh_token u') = Inr None \<longrightarrow>
               get_google_credentials e self u' = get_google_credentials e self u \<and>
               process_user n e self u' st = process_user n e self u st \<and>
               run_user n e self u' (st, calls) =
                 Some (st\<lparr>users_processed := users_processed st + 1,
                          users_failed := users_failed st + 1,
                          errors := errors st @
                            [''User '' @ user_email u' @ '': credential/auth failure'']\<rparr>,
                       calls))) \<and>
         ((\<forall>m. ex \<noteq> RefreshError m) \<longrightarrow>
            get_google_credentials e self u = Inl ex \<and>
            process_user n e self u st = Some (Inl ex, st, []) \<and>
            run_user n e self u (st, calls) =
              Some (st\<lparr>users_processed := users_processed st + 1,
                       users_failed := users_failed st + 1,
                       errors := errors st @ [''User '' @ user_email u @ '': '' @ str_exc ex]\<rparr>,
                    calls)) \<and>
         (\<exists>st'. run_user n e self u (st, calls) = Some (st', calls) \<and>
                users_processed st' = users_processed st + 1 \<and>
                users_successful st' = users_successful st \<and>
                users_failed st' = users_failed st + 1 \<and>
                run_users n e self (u # us) (st, calls) = run_users n e self us (st', calls))"
proof -
  have p: "process_user n e self v s = Some (Inr False, s, [])"
    if "get_google_credentials e self v = Inr None" for v s
    using that by (simp add: process_user_def)
  have q: "process_user n e self v s = Some (Inl x, s, [])"
    if "get_google_credentials e self v = Inl x" for v s x
    using that by (simp add: process_user_def)
  have g': "get_google_credentials e self u' = Inr None"
    if "decrypt_token e self (google_refresh_token u') = Inr None" for u'
    using that by (simp add: get_google_credentials_def)
  show ?thesis
  proof (cases "\<exists>m. ex = RefreshError m")
    case True
    then obtain m where m: "ex = RefreshError m" by blast
    have g: "get_google_credentials e self u = Inr None"
      using assms m by (simp add: get_google_credentials_def Let_def)
    show ?thesis
      using m g p[OF g] g' p[OF g'] by (simp add: run_user_def)
  next
    case False
    have g: "get_google_credentials e self u = Inl ex"
      using assms False by (cases ex) (simp_all add: get_google_credentials_def Let_def)
    show ?thesis
      using False g q[OF g] by (simp add: run_user_def)
  qed
qed

text \<open>At carol, whose refresh is refused, bob, whose secret does not decrypt, and dave.\<close>

theorem refresh_failure_skips_user_witness:
  "decrypt_token (demo_env []) (demo_self False) (google_refresh_token carol) =
     Inr (Some ''rt-revoked'') \<and>
   needs_refresh (demo_env []) (google_token_expiry carol) \<and>
   refresh (demo_env []) (make_credentials (demo_env []) (demo_self False) carol ''rt-revoked'') =
     Inl (RefreshError ''invalid_grant'') \<and>
   get_google_credentials (demo_env []) (demo_self False) carol = Inr None \<and>
   run_user 2 (demo_env []) (demo_self False) carol (init_stats, []) =
     Some (\<lparr>users_processed = 1, users_successful = 0, users_failed = 1,
            total_events_found = 0, total_events_deleted = 0,
            errors = [''User carol@example.com: credential/auth failure'']\<rparr>, []) \<and>
   decrypt_token (demo_env []) (demo_self False) (google_refresh_token bob) = Inr None \<and>
   process_user 2 (demo_env []) (demo_self False) bob init_stats =
     process_user 2 (demo_env []) (demo_self False) carol init_stats \<and>
   decrypt_token (demo_env []) (demo_self False) (google_refresh_token dave) =
     Inr (Some ''rt-neterr'') \<and>
   needs_refresh (demo_env []) (google_token_expiry dave) \<and>
   refresh (demo_env []) (make_credentials (demo_env []) (demo_self False) dave ''rt-neterr'') =
     Inl (OtherException ''connection reset'') \<and>
   process_user 2 (demo_env []) (demo_self False) dave init_stats =
     Some (Inl (OtherException ''connection reset''), init_stats, []) \<and>
   run_users 2 (demo_env []) (demo_self False) [dave, bob] (init_stats, []) =
     Some (\<lparr>users_processed = 2, users_successful = 0, users_failed = 2,
            total_events_found = 0, total_events_deleted = 0,
            errors = [''User dave@example.com: connection reset'',
                      ''User bob@example.com: credential/auth failure'']\<rparr>, [])"
proof -
  let ?e = "demo_env [] :: (unit, string) env"
  have h1: "decrypt_token ?e (demo_self False) (google_refresh_token carol) = Inr (Some ''rt-revoked'')"
    using demo_decrypt(1)[of "[]" False "''revoked''"] by (simp add: demo_fields)
  have h2: "''rt-revoked'' \<noteq> []" by simp
  have h3: "needs_refresh ?e (google_token_expiry carol)"
    by (simp add: demo_fields demo_needs_refresh)
  have h4: "refresh ?e (make_credentials ?e (demo_self False) carol ''rt-revoked'') =
              Inl (RefreshError ''invalid_grant'')"
    by (simp add: demo_sel3 make_credentials_def)
  have b: "decrypt_token ?e (demo_self False) (google_refresh_token bob) = Inr None"
    by (simp add: demo_fields demo_decrypt)
  note t = refresh_failure_skips_user[OF h1 h2 h3 h4, of 2 init_stats "[]" "[]", THEN conjunct1,
             rule_format, OF refl]
  from t have g: "get_google_credentials ?e (demo_self False) carol = Inr None"
    by (rule conjunct1)
  from t have r: "run_user 2 ?e (demo_self False) carol (init_stats, []) =
     Some (\<lparr>users_processed = 1, users_successful = 0, users_failed = 1,
            total_events_found = 0, total_events_deleted = 0,
            errors = [''User carol@example.com: credential/auth failure'']\<rparr>, [])"
    by (simp add: init_stats_def demo_emails)
  from t[THEN conjunct2, THEN conjunct2, THEN conjunct2, rule_format, OF b]
  have s: "process_user 2 ?e (demo_self False) bob init_stats =
           process_user 2 ?e (demo_self False) carol init_stats"
    by simp
  have k1: "decrypt_token ?e (demo_self False) (google_refresh_token dave) = Inr (Some ''rt-neterr'')"
    using demo_decrypt(1)[of "[]" False "''neterr''"] by (simp add: dave_def demo_user_def)
  have k2: "''rt-neterr'' \<noteq> []" by simp
  have k3: "needs_refresh ?e (google_token_expiry dave)"
    by (simp add: dave_def demo_user_def demo_needs_refresh)
  have k4: "refresh ?e (make_credentials ?e (demo_self False) dave ''rt-neterr'') =
              Inl (OtherException ''connection reset'')"
    by (simp add: demo_sel3 make_credentials_def)
  have ne: "OtherException ''connection reset'' \<noteq> RefreshError m" for m by simp
  note t2 = refresh_failure_skips_user[OF k1 k2 k3 k4, of 2 init_stats "[]" "[bob]"]
  note t3 = t2[THEN conjunct2, THEN conjunct1, rule_format, OF ne]
  from t3 have p2: "process_user 2 ?e (demo_self False) dave init_stats =
                      Some (Inl (OtherException ''connection reset''), init_stats, [])"
    by simp
  from t3 have r2: "run_user 2 ?e (demo_self False) dave (init_stats, []) =
     Some (\<lparr>users_processed = 1, users_successful = 0, users_failed = 1,
            total_events_found = 0, total_events_deleted = 0,
            errors = [''User dave@example.com: connection reset'']\<rparr>, [])"
    by (simp add: init_stats_def demo_emails)
  from t2[THEN conjunct2, THEN conjunct2] r2
  have c: "run_users 2 ?e (demo_self False) [dave, bob] (init_stats, []) =
           run_users 2 ?e (demo_self False) [bob]
             (\<lparr>users_processed = 1, users_successful = 0, users_failed = 1,
               total_events_found = 0, total_events_deleted = 0,
               errors = [''User dave@example.com: connection reset'']\<rparr>, [])"
    by auto
  have c2: "run_users 2 ?e (demo_self False) [dave, bob] (init_stats, []) =
     Some (\<lparr>users_processed = 2, users_successful = 0, users_failed = 2,
            total_events_found = 0, total_events_deleted = 0,
            errors = [''User dave@example.com: connection reset'',
                      ''User bob@example.com: credential/auth failure'']\<rparr>, [])"
    by (subst c) (simp add: run_user_def demo_process_failures demo_emails)
  from h1 h3 h4 g r b s k1 k3 k4 p2 c2 show ?thesis by (intro conjI)
qed

text \<open>
  C9. When \<open>initialize\<close> succeeds and the query returns no rows, \<open>run\<close> returns \<open>True\<close>
  with every counter zero, no error entry and no deletion request, and the exit status
  is 0.
\<close>

theorem zero_users_run:
  assumes "initialize e dry = (True, self)" and "supabase self = Some db"
      and "query_users e db = Inr data" and "data = None \<or> data = Some []"
  shows "run n e dry = Some (True, \<lparr>users_processed = 0, users_successful = 0, users_failed = 0,
           total_events_found = 0, total_events_deleted = 0, errors = []\<rparr>, []) \<and>
         main n e dry = Some 0"
  using assms by (auto simp: run_def main_def init_stats_def)

text \<open>At the world with no user.\<close>

theorem zero_users_run_witness:
  "initialize (demo_env []) False = (True, demo_self False) \<and>
   query_users (demo_env []) () = Inr (Some []) \<and>
   run 2 (demo_env []) False =
     Some (True, \<lparr>users_processed = 0, users_successful = 0, users_failed = 0,
           total_events_found = 0, total_events_deleted = 0, errors = []\<rparr>, []) \<and>
   main 2 (demo_env []) False = Some 0"
proof -
  have i: "initialize (demo_env []) False = (True, demo_self False)"
    by (rule demo_initialize)
  have s: "supabase (demo_self False) = Some ()"
    by (simp add: demo_self_def)
  have q: "query_users (demo_env []) () = Inr (Some [])"
    by (simp add: demo_env_def)
  have d: "Some [] = None \<or> Some [] = Some ([] :: user_data list)"
    by simp
  from zero_users_run[OF i s q d, of 2] i q show ?thesis by simp
qed

text \<open>
  C10. After each user of a run, that is after the loop over any initial part of the user
  list, \<open>users_processed = users_successful + users_failed\<close> and
  \<open>total_events_deleted \<le> total_events_found\<close>; so they hold for the statistics of every
  completed run.
\<close>

theorem stats_invariants:
  "(\<forall>k st calls. run_users n e self (take k users) (init_stats, []) = Some (st, calls) \<longrightarrow>
      users_processed st = users_successful st + users_failed st \<and>
      total_events_deleted st \<le> total_events_found st) \<and>
   (\<forall>ok st calls. run n e dry = Some (ok, st, calls) \<longrightarrow>
      users_processed st = users_successful st + users_failed st \<and>
      total_events_deleted st \<le> total_events_found st)"
proof (intro conjI allI impI)
  fix k st calls
  assume a: "run_users n e self (take k users) (init_stats, []) = Some (st, calls)"
  from run_users_inv[OF a]
  show "users_processed st = users_successful st + users_failed st"
    and "total_events_deleted st \<le> total_events_found st"
    by (simp_all add: init_stats_def)
next
  fix ok st calls
  assume r: "run n e dry = Some (ok, st, calls)"
  have "st = init_stats \<or> (\<exists>self users. run_users n e self users (init_stats, []) = Some (st, calls))"
    using r
    by (auto simp: run_def Let_def split: prod.splits bool.splits option.splits sum.splits if_splits)
  then show "users_processed st = users_successful st + users_failed st"
    and "total_events_deleted st \<le> total_events_found st"
    using run_users_inv[of n e _ _ init_stats "[]" st calls]
    by (auto simp: init_stats_def)
qed

text \<open>At the run over alice and bob, after alice and at the end.\<close>

theorem stats_invariants_witness:
  "run_users 2 (demo_env [alice, bob]) (demo_self False) (take 1 [alice, bob]) (init_stats, []) =
     Some (\<lparr>users_processed = 1, users_successful = 1, users_failed = 0,
             total_events_found = 2, total_events_deleted = 1, errors = []\<rparr>,
           [(''a'', True), (''c'', False)]) \<and>
   run 2 (demo_env [alice, bob]) False =
     Some (False,
           \<lparr>users_processed = 2, users_successful = 1, users_failed = 1,
             total_events_found = 2, total_events_deleted = 1,
             errors = [''User bob@example.com: credential/auth failure'']\<rparr>,
           [(''a'', True), (''c'', False)]) \<and>
   users_processed \<lparr>users_processed = 2, users_successful = 1, users_failed = 1,
             total_events_found = 2, total_events_deleted = 1,
             errors = [''User bob@example.com: credential/auth failure'']\<rparr> =
     users_successful \<lparr>users_processed = 2, users_successful = 1, users_failed = 1,
             total_events_found = 2, total_events_deleted = 1,
             errors = [''User bob@example.com: credential/auth failure'']\<rparr> +
     users_failed \<lparr>users_processed = 2, users_successful = 1, users_failed = 1,
             total_events_found = 2, total_events_deleted = 1,
             errors = [''User bob@example.com: credential/auth failure'']\<rparr> \<and>
   total_events_deleted \<lparr>users_processed = 2, users_successful = 1, users_failed = 1,
             total_events_found = 2, total_events_deleted = 1,
             errors = [''User bob@example.com: credential/auth failure'']\<rparr> \<le>
     total_events_found \<lparr>users_processed = 2, users_successful = 1, users_failed = 1,
             total_events_found = 2, total_events_deleted = 1,
             errors = [''User bob@example.com: credential/auth failure'']\<rparr>"
proof -
  let ?s1 = "\<lparr>users_processed = 1, users_successful = 1, users_failed = 0,
             total_events_found = 2, total_events_deleted = 1, errors = []\<rparr>"
  let ?s2 = "\<lparr>users_processed = 2, users_successful = 1, users_failed = 1,
             total_events_found = 2, total_events_deleted = 1,
             errors = [''User bob@example.com: credential/auth failure'']\<rparr>"
  have u1: "run_users 2 (demo_env [alice, bob]) (demo_self False) (take 1 [alice, bob])
              (init_stats, []) = Some (?s1, [(''a'', True), (''c'', False)])"
    using demo_run_users_alice[of "[alice, bob]"] by simp
  have r: "run 2 (demo_env [alice, bob]) False = Some (False, ?s2, [(''a'', True), (''c'', False)])"
    by (simp add: run_def demo_initialize demo_sel run_user_def demo_process_alice_live
          demo_process_failures demo_emails init_stats_def)
  note t = stats_invariants[of 2 "demo_env [alice, bob]" "demo_self False" "[alice, bob]" False]
  from t[THEN conjunct1, rule_format, OF u1]
  have c0: "users_processed ?s1 = users_successful ?s1 + users_failed ?s1 \<and>
            total_events_deleted ?s1 \<le> total_events_found ?s1" .
  from t[THEN conjunct2, rule_format, OF r]
  have c: "users_processed ?s2 = users_successful ?s2 + users_failed ?s2 \<and>
           total_events_deleted ?s2 \<le> total_events_found ?s2" .
  note c1 = c[THEN conjunct1] and c2 = c[THEN conjunct2]
  from u1 r c1 c2 show ?thesis by (intro conjI)
qed

end
